theory Spec2Isabelle
  imports Complex_Main
begin

section \<open>Python values and numpy vectors\<close>

text \<open>
  The exceptions that \<^verbatim>\<open>nltools/analysis.py\<close> can raise in \<^verbatim>\<open>apply_mask\<close>,
  \<^verbatim>\<open>Roc.__init__\<close> and \<^verbatim>\<open>Roc.calculate\<close>. A raise is the value \<open>Inl e\<close>.
\<close>

datatype error =
  ValueError | IndexError | NameError | UnboundLocalError | ZeroDivisionError | AttributeError

text \<open>
  The source compares strings with \<^verbatim>\<open>is\<close> (object identity), not with \<^verbatim>\<open>==\<close>.
  A string constant written in a program is interned by the interpreter, so two of them
  with the same characters are the same object; a string built while the program runs
  is a fresh object, identical to no constant.
\<close>

datatype py_str = Interned string | Runtime string

fun chars :: "py_str \<Rightarrow> string" where
  "chars (Interned s) = s"
| "chars (Runtime s) = s"

text \<open>\<^verbatim>\<open>x is 'lit'\<close>, for a string constant \<^verbatim>\<open>'lit'\<close> of the source.\<close>

fun is_literal :: "py_str \<Rightarrow> string \<Rightarrow> bool" where
  "is_literal (Interned s) lit = (s = lit)"
| "is_literal (Runtime s) lit = False"

text \<open>
  One-dimensional numpy arrays are lists: \<open>real list\<close> for an array of floats (the
  floats are idealised as real numbers), \<open>bool list\<close> for a boolean array.
\<close>

text \<open>\<^verbatim>\<open>float(a)/float(b)\<close> on Python floats raises when \<^verbatim>\<open>b\<close> is zero.\<close>

definition py_div :: "real \<Rightarrow> real \<Rightarrow> error + real" where
  "py_div a b = (if b = 0 then Inl ZeroDivisionError else Inr (a / b))"

text \<open>\<^verbatim>\<open>sum(m)\<close> of a boolean array: the number of its true elements.\<close>

definition count_true :: "bool list \<Rightarrow> nat" where
  "count_true m = length (filter id m)"

text \<open>\<^verbatim>\<open>~m\<close> on a boolean array.\<close>

definition invert :: "bool list \<Rightarrow> bool list" where
  "invert m = map Not m"

text \<open>
  Boolean indexing \<^verbatim>\<open>a[m]\<close>: the elements of \<^verbatim>\<open>a\<close> where the mask is true, in
  order. numpy raises IndexError when the mask is not as long as the array.
\<close>

definition pick :: "'a list \<Rightarrow> bool list \<Rightarrow> 'a list" where
  "pick a m = map fst (filter snd (zip a m))"

definition mask_index :: "'a list \<Rightarrow> bool list \<Rightarrow> error + 'a list" where
  "mask_index a m = (if length m = length a then Inr (pick a m) else Inl IndexError)"

text \<open>
  An elementwise binary operation of numpy on two one-dimensional arrays, with
  broadcasting: equal lengths, or one of the two of length one; anything else raises
  ValueError.
\<close>

definition bcast2 :: "('a \<Rightarrow> 'b \<Rightarrow> 'c) \<Rightarrow> 'a list \<Rightarrow> 'b list \<Rightarrow> error + 'c list" where
  "bcast2 f xs ys =
     (if length xs = length ys then Inr (map2 f xs ys)
      else if length ys = 1 then Inr (map (\<lambda>x. f x (hd ys)) xs)
      else if length xs = 1 then Inr (map (\<lambda>y. f (hd xs) y) ys)
      else Inl ValueError)"

text \<open>
  Boolean-mask assignment \<^verbatim>\<open>a[m] = v\<close>: the values of \<^verbatim>\<open>v\<close> go, in order, to the
  places where the mask is true. \<^verbatim>\<open>v\<close> has as many values as the mask has true
  elements, or one value that is written to each of them; anything else raises
  ValueError.
\<close>

fun put :: "'a list \<Rightarrow> bool list \<Rightarrow> 'a list \<Rightarrow> 'a list" where
  "put (x # xs) (b # bs) (v # vs) = (if b then v # put xs bs vs else x # put xs bs (v # vs))"
| "put xs bs vs = xs"

definition mask_assign :: "'a list \<Rightarrow> bool list \<Rightarrow> 'a list \<Rightarrow> error + 'a list" where
  "mask_assign a m v =
     (if length m \<noteq> length a then Inl IndexError
      else if length v = count_true m then Inr (put a m v)
      else if length v = 1 then Inr (put a m (replicate (count_true m) (hd v)))
      else Inl ValueError)"

text \<open>
  \<^verbatim>\<open>np.linspace(a, b, num)\<close>: \<open>num\<close> evenly spaced values, the first \<open>a\<close> and,
  when there are at least two, the last \<open>b\<close>.
\<close>

definition linspace :: "real \<Rightarrow> real \<Rightarrow> nat \<Rightarrow> real list" where
  "linspace a b num =
     (if num = 1 then [a]
      else map (\<lambda>i. a + real i * ((b - a) / real (num - 1))) [0..<num])"

text \<open>Python's \<^verbatim>\<open>min\<close> and \<^verbatim>\<open>max\<close> of a sequence: ValueError when it is empty.\<close>

definition py_min :: "real list \<Rightarrow> error + real" where
  "py_min xs = (case xs of [] \<Rightarrow> Inl ValueError | x # r \<Rightarrow> Inr (fold min r x))"

definition py_max :: "real list \<Rightarrow> error + real" where
  "py_max xs = (case xs of [] \<Rightarrow> Inl ValueError | x # r \<Rightarrow> Inr (fold max r x))"

text \<open>
  \<^verbatim>\<open>np.argmax\<close> and \<^verbatim>\<open>np.argmin\<close>: the index of the first greatest (least)
  element; ValueError on an empty array. The loop keeps the best value seen, the index
  where it was seen, and the index of the element it looks at.
\<close>

fun argmax_from :: "real \<Rightarrow> nat \<Rightarrow> nat \<Rightarrow> real list \<Rightarrow> nat" where
  "argmax_from b bi i [] = bi"
| "argmax_from b bi i (x # xs) =
     (if b < x then argmax_from x i (Suc i) xs else argmax_from b bi (Suc i) xs)"

definition argmax :: "real list \<Rightarrow> error + nat" where
  "argmax xs = (case xs of [] \<Rightarrow> Inl ValueError | x # r \<Rightarrow> Inr (argmax_from x 0 1 r))"

fun argmin_from :: "real \<Rightarrow> nat \<Rightarrow> nat \<Rightarrow> real list \<Rightarrow> nat" where
  "argmin_from b bi i [] = bi"
| "argmin_from b bi i (x # xs) =
     (if x < b then argmin_from x i (Suc i) xs else argmin_from b bi (Suc i) xs)"

definition argmin :: "real list \<Rightarrow> error + nat" where
  "argmin xs = (case xs of [] \<Rightarrow> Inl ValueError | x # r \<Rightarrow> Inr (argmin_from x 0 1 r))"

text \<open>\<^verbatim>\<open>a[i]\<close> for an index that numpy computed: IndexError out of range.\<close>

definition py_index :: "'a list \<Rightarrow> nat \<Rightarrow> error + 'a" where
  "py_index a i = (if i < length a then Inr (a ! i) else Inl IndexError)"

text \<open>\<^verbatim>\<open>np.mean\<close> of a boolean array: the share of its true elements.\<close>

definition mean_bool :: "bool list \<Rightarrow> real" where
  "mean_bool m = real (count_true m) / real (length m)"

text \<open>Sequencing of computations that may raise.\<close>

definition bind :: "error + 'a \<Rightarrow> ('a \<Rightarrow> error + 'b) \<Rightarrow> error + 'b" where
  "bind m f = (case m of Inl e \<Rightarrow> Inl e | Inr x \<Rightarrow> f x)"

text \<open>Reading an attribute of \<^verbatim>\<open>self\<close> that may not have been set yet.\<close>

definition attr :: "'a option \<Rightarrow> error + 'a" where
  "attr a = (case a of None \<Rightarrow> Inl AttributeError | Some v \<Rightarrow> Inr v)"

section \<open>External library functions\<close>

text \<open>
  \<^verbatim>\<open>scipy.stats.norm.ppf\<close>, \<^verbatim>\<open>scipy.stats.binom_test\<close> (with \<^verbatim>\<open>p=.5\<close>) and
  \<^verbatim>\<open>np.sqrt\<close> are taken as parameters: no property below depends on what they
  compute.
\<close>

record ext =
  norm_ppf :: "real \<Rightarrow> real"
  binom_test :: "nat \<Rightarrow> nat \<Rightarrow> real"
  np_sqrt :: "real \<Rightarrow> real"

text \<open>\<^verbatim>\<open>np.diff\<close> and \<^verbatim>\<open>np.trapz(y, x)\<close>.\<close>

fun diff :: "real list \<Rightarrow> real list" where
  "diff (a # b # r) = (b - a) # diff (b # r)"
| "diff r = []"

fun trapz :: "real list \<Rightarrow> real list \<Rightarrow> real" where
  "trapz (y0 # y1 # ys) (x0 # x1 # xs) = (x1 - x0) * (y1 + y0) / 2 + trapz (y1 # ys) (x1 # xs)"
| "trapz ys xs = 0"

text \<open>
  Modelled from the spec: \<^verbatim>\<open>sklearn.metrics.auc(x, y)\<close> is imported from a library
  and is not part of the source file. The specification calls it the AUC, the area
  under the curve by the trapezoidal rule. The library function wants two arrays of the
  same length with at least two points; it integrates \<^verbatim>\<open>y\<close> over \<^verbatim>\<open>x\<close> with
  \<^verbatim>\<open>np.trapz\<close>, changes the sign when \<^verbatim>\<open>x\<close> is decreasing, and raises ValueError
  when \<^verbatim>\<open>x\<close> is neither increasing nor decreasing.
\<close>

definition sk_auc :: "real list \<Rightarrow> real list \<Rightarrow> error + real" where
  "sk_auc x y =
     (if length x \<noteq> length y then Inl ValueError
      else if length x < 2 then Inl ValueError
      else if list_ex (\<lambda>d. d < 0) (diff x)
        then (if list_all (\<lambda>d. d \<le> 0) (diff x) then Inr (- trapz y x) else Inl ValueError)
        else Inr (trapz y x))"

section \<open>The class Roc\<close>

text \<open>
  The attributes of a \<^verbatim>\<open>Roc\<close> object. \<^verbatim>\<open>__init__\<close> sets the first four; the
  others do not exist until \<^verbatim>\<open>calculate\<close> sets them (\<open>None\<close>: not set). The
  attribute \<^verbatim>\<open>n\<close> is the field \<open>n_obs\<close>.
\<close>

record roc =
  input_values :: "real list"
  binary_outcome :: "bool list"
  threshold_type :: py_str
  forced_choice :: bool
  criterion_values :: "real list option"
  class_thr :: "real option"
  tpr :: "real list option"
  fpr :: "real list option"
  n_true :: "real option"
  n_false :: "real option"
  auc :: "real option"
  false_positive :: "bool list option"
  false_negative :: "bool list option"
  misclass :: "bool list option"
  true_positive :: "bool list option"
  true_negative :: "bool list option"
  sensitivity :: "real option"
  specificity :: "real option"
  ppv :: "real option"
  accuracy :: "real option"
  n_obs :: "nat option"
  accuracy_p :: "real option"
  accuracy_se :: "real option"

definition thr_type :: "string list" where
  "thr_type = [''optimal_overall'', ''optimal_balanced'', ''minimum_sdt_bias'']"

text \<open>\<^verbatim>\<open>Roc.__init__\<close> (lines 393-418). \<^verbatim>\<open>any(binary_outcome)\<close> is \<open>list_ex id\<close>.\<close>

definition Roc_init :: "real list \<Rightarrow> bool list \<Rightarrow> py_str \<Rightarrow> bool \<Rightarrow> error + roc" where
  "Roc_init iv bo tt fc =
     (if length iv \<noteq> length bo then Inl ValueError
      else if \<not> list_ex id bo then Inl ValueError
      else if chars tt \<notin> set thr_type then Inl ValueError
      else Inr \<lparr>input_values = iv, binary_outcome = bo, threshold_type = tt,
        forced_choice = fc, criterion_values = None, class_thr = None, tpr = None,
        fpr = None, n_true = None, n_false = None, auc = None, false_positive = None,
        false_negative = None, misclass = None, true_positive = None,
        true_negative = None, sensitivity = None, specificity = None, ppv = None,
        accuracy = None, n_obs = None, accuracy_p = None, accuracy_se = None\<rparr>)"

subsection \<open>Roc.calculate, statement by statement\<close>

text \<open>Lines 437-441: arguments that are not \<^verbatim>\<open>None\<close> replace the stored vectors.\<close>

definition set_inputs :: "real list option \<Rightarrow> bool list option \<Rightarrow> roc \<Rightarrow> roc" where
  "set_inputs ivo boo s =
     (let s1 = (case ivo of None \<Rightarrow> s | Some iv \<Rightarrow> s\<lparr>input_values := iv\<rparr>)
      in (case boo of None \<Rightarrow> s1 | Some bo \<Rightarrow> s1\<lparr>binary_outcome := bo\<rparr>))"

text \<open>Lines 443-447: the criterion values, by default 50 per observation.\<close>

definition create_criterion_values :: "real list option \<Rightarrow> roc \<Rightarrow> error + roc" where
  "create_criterion_values cvo s =
     (case cvo of
        Some cv \<Rightarrow> Inr (s\<lparr>criterion_values := Some cv\<rparr>)
      | None \<Rightarrow>
          bind (py_min (input_values s)) (\<lambda>lo.
          bind (py_max (input_values s)) (\<lambda>hi.
          Inr (s\<lparr>criterion_values :=
                 Some (linspace lo hi (50 * length (binary_outcome s)))\<rparr>))))"

text \<open>
  Lines 449-454: the forced-choice transformation. \<^verbatim>\<open>mn_scores\<close> is computed from
  \<^verbatim>\<open>self.input_values[self.binary_outcome]\<close> added to itself.
\<close>

definition forced_choice_transform :: "bool \<Rightarrow> roc \<Rightarrow> error + roc" where
  "forced_choice_transform fc s =
     (if fc \<or> forced_choice s then
        (let s1 = s\<lparr>forced_choice := True\<rparr>; bo = binary_outcome s1; iv = input_values s1 in
         bind (mask_index iv bo) (\<lambda>a.
         bind (mask_index iv bo) (\<lambda>b.
         bind (bcast2 (+) a b) (\<lambda>sm.
         (let mn_scores = map (\<lambda>x. x / 2) sm in
          bind (mask_index iv bo) (\<lambda>t.
          bind (bcast2 (-) t mn_scores) (\<lambda>d.
          bind (mask_assign iv bo d) (\<lambda>iv1.
          bind (mask_index iv1 (invert bo)) (\<lambda>f.
          bind (bcast2 (-) f mn_scores) (\<lambda>d2.
          bind (mask_assign iv1 (invert bo) d2) (\<lambda>iv2.
          Inr (s1\<lparr>input_values := iv2, class_thr := Some 0\<rparr>))))))))))))
      else Inr s)"

text \<open>
  Lines 459-462: one round of the loop, for the criterion value \<open>x\<close>: the true
  positive rate, then the false positive rate.
\<close>

definition rates_at :: "real list \<Rightarrow> bool list \<Rightarrow> real \<Rightarrow> error + real \<times> real" where
  "rates_at iv bo x =
     (let wh = map (\<lambda>v. x \<le> v) iv in
      bind (mask_index wh bo) (\<lambda>wt.
      bind (py_div (real (count_true wt)) (real (count_true bo))) (\<lambda>t.
      bind (mask_index wh (invert bo)) (\<lambda>wf.
      bind (py_div (real (count_true wf)) (real (count_true (invert bo)))) (\<lambda>f.
      Inr (t, f))))))"

fun rates_loop :: "real list \<Rightarrow> bool list \<Rightarrow> real list \<Rightarrow> error + real list \<times> real list" where
  "rates_loop iv bo [] = Inr ([], [])"
| "rates_loop iv bo (x # xs) =
     (case rates_at iv bo x of
        Inl e \<Rightarrow> Inl e
      | Inr (t, f) \<Rightarrow>
          (case rates_loop iv bo xs of
             Inl e \<Rightarrow> Inl e
           | Inr (ts, fs) \<Rightarrow> Inr (t # ts, f # fs)))"

text \<open>Lines 456-464: the rates for every criterion value, and the two counts.\<close>

definition rates :: "roc \<Rightarrow> error + roc" where
  "rates s =
     bind (attr (criterion_values s)) (\<lambda>cv.
     bind (rates_loop (input_values s) (binary_outcome s) cv) (\<lambda>(ts, fs).
     Inr (s\<lparr>tpr := Some ts, fpr := Some fs,
            n_true := Some (real (count_true (binary_outcome s))),
            n_false := Some (real (count_true (invert (binary_outcome s))))\<rparr>)))"

text \<open>Line 475: the area under the curve.\<close>

definition area_under_curve :: "roc \<Rightarrow> error + roc" where
  "area_under_curve s =
     bind (attr (fpr s)) (\<lambda>fs.
     bind (attr (tpr s)) (\<lambda>ts.
     bind (sk_auc fs ts) (\<lambda>a.
     Inr (s\<lparr>auc := Some a\<rparr>))))"

text \<open>
  Lines 478-491: the classification threshold. In the branch for
  \<^verbatim>\<open>'optimal_balanced'\<close> the source reads the names \<^verbatim>\<open>tpr\<close> and \<^verbatim>\<open>fpr\<close>, which
  are neither local variables nor names of the module: NameError.
\<close>

definition get_threshold :: "ext \<Rightarrow> py_str \<Rightarrow> roc \<Rightarrow> error + roc" where
  "get_threshold ex tt s =
     (if \<not> forced_choice s then
        (let s1 = s\<lparr>threshold_type := tt\<rparr> in
         if is_literal tt ''optimal_balanced'' then Inl NameError
         else if is_literal tt ''optimal_overall'' then
           bind (attr (tpr s1)) (\<lambda>ts.
           bind (attr (n_true s1)) (\<lambda>nt.
           bind (attr (fpr s1)) (\<lambda>fs.
           bind (attr (n_false s1)) (\<lambda>nf.
           (let n_corr_t = map (\<lambda>t. t * nt) ts;
                n_corr_f = map (\<lambda>f. (1 - f) * nf) fs in
            bind (bcast2 (+) n_corr_t n_corr_f) (\<lambda>sm.
            bind (attr (criterion_values s1)) (\<lambda>cv.
            bind (argmax sm) (\<lambda>i.
            bind (py_index cv i) (\<lambda>thr.
            Inr (s1\<lparr>class_thr := Some thr\<rparr>))))))))))
         else if is_literal tt ''minimum_sdt_bias'' then
           bind (attr (tpr s1)) (\<lambda>ts.
           bind (attr (fpr s1)) (\<lambda>fs.
           bind (bcast2 (+)
                  (map (\<lambda>t. norm_ppf ex (max 0.0001 (min 0.9999 t))) ts)
                  (map (\<lambda>f. norm_ppf ex (max 0.0001 (min 0.9999 f))) fs)) (\<lambda>sm.
           (let c_bias = map (\<lambda>c. c / 2) sm in
            bind (attr (criterion_values s1)) (\<lambda>cv.
            bind (argmin (map abs c_bias)) (\<lambda>i.
            bind (py_index cv i) (\<lambda>thr.
            Inr (s1\<lparr>class_thr := Some thr\<rparr>))))))))
         else Inr s1)
      else Inr s)"

text \<open>
  Lines 494-507: the confusion vectors, sensitivity, specificity and the positive
  predictive value. In lines 499 and 500 the divisor is zero only when the array that
  is summed is empty, and then Python divides the integer 0 by the float 0.0, which
  raises.
\<close>

definition outputs :: "roc \<Rightarrow> error + roc" where
  "outputs s =
     (let iv = input_values s; bo = binary_outcome s in
      bind (attr (class_thr s)) (\<lambda>thr.
      bind (bcast2 (\<and>) (map (\<lambda>v. thr \<le> v) iv) (invert bo)) (\<lambda>fp.
      bind (bcast2 (\<and>) (map (\<lambda>v. v < thr) iv) bo) (\<lambda>fn.
      bind (bcast2 (\<or>) fn fp) (\<lambda>mis.
      bind (bcast2 (\<and>) bo (invert mis)) (\<lambda>tp.
      bind (bcast2 (\<and>) (invert bo) (invert mis)) (\<lambda>tn.
      bind (mask_index iv bo) (\<lambda>ivt.
      bind (attr (n_true s)) (\<lambda>nt.
      bind (py_div (real (count_true (map (\<lambda>v. thr \<le> v) ivt))) nt) (\<lambda>sens.
      bind (mask_index iv (invert bo)) (\<lambda>ivf.
      bind (attr (n_false s)) (\<lambda>nf.
      bind (py_div (real (count_true (map (\<lambda>v. thr \<le> v) ivf))) nf) (\<lambda>q.
      bind (py_div (real (count_true tp)) (real (count_true tp) + real (count_true fp))) (\<lambda>pv.
      (let s1 = s\<lparr>false_positive := Some fp, false_negative := Some fn,
                   misclass := Some mis, true_positive := Some tp,
                   true_negative := Some tn, sensitivity := Some sens,
                   specificity := Some (1 - q), ppv := Some pv\<rparr> in
       if forced_choice s then
         bind (mask_index tp bo) (\<lambda>tp2.
         bind (mask_index tn (invert bo)) (\<lambda>tn2.
         bind (mask_index fn bo) (\<lambda>fn2.
         bind (mask_index fp (invert bo)) (\<lambda>fp2.
         bind (bcast2 (\<or>) fp2 fn2) (\<lambda>mis2.
         Inr (s1\<lparr>true_positive := Some tp2, true_negative := Some tn2,
                 false_negative := Some fn2, false_positive := Some fp2,
                 misclass := Some mis2\<rparr>))))))
       else Inr s1)))))))))))))))"

text \<open>
  Lines 509-518: the accuracy, its p-value and its standard error. In line 518 a Python
  float is divided by the integer \<^verbatim>\<open>self.n\<close>.
\<close>

definition accuracy_stats :: "ext \<Rightarrow> bool \<Rightarrow> roc \<Rightarrow> error + roc" where
  "accuracy_stats ex balanced_acc s =
     bind (if balanced_acc
           then bind (attr (sensitivity s)) (\<lambda>sens.
                bind (attr (specificity s)) (\<lambda>spec.
                Inr ((sens + spec) / 2)))
           else bind (attr (misclass s)) (\<lambda>mis. Inr (1 - mean_bool mis))) (\<lambda>acc.
     bind (attr (misclass s)) (\<lambda>mis.
     (let n = length mis;
          p = binom_test ex (count_true (invert mis)) n in
      bind (py_div (mean_bool (invert mis) * mean_bool (invert mis)) (real n)) (\<lambda>v.
      Inr (s\<lparr>accuracy := Some acc, n_obs := Some n, accuracy_p := Some p,
             accuracy_se := Some (np_sqrt ex v)\<rparr>)))))"

text \<open>
  \<^verbatim>\<open>Roc.calculate\<close> (lines 420-518). The arguments \<^verbatim>\<open>input_values\<close>,
  \<^verbatim>\<open>binary_outcome\<close> and \<^verbatim>\<open>criterion_values\<close> default to \<^verbatim>\<open>None\<close>. When a
  statement raises, the call ends with that exception; the partly updated object is not
  part of the result.
\<close>

definition calculate ::
  "ext \<Rightarrow> real list option \<Rightarrow> bool list option \<Rightarrow> real list option \<Rightarrow> py_str \<Rightarrow> bool \<Rightarrow> bool
     \<Rightarrow> roc \<Rightarrow> error + roc" where
  "calculate ex ivo boo cvo tt fc balanced_acc s =
     bind (create_criterion_values cvo (set_inputs ivo boo s)) (\<lambda>s1.
     bind (forced_choice_transform fc s1) (\<lambda>s2.
     bind (rates s2) (\<lambda>s3.
     bind (area_under_curve s3) (\<lambda>s4.
     bind (get_threshold ex tt s4) (\<lambda>s5.
     bind (outputs s5) (\<lambda>s6.
     accuracy_stats ex balanced_acc s6))))))"

text \<open>
  Line 534, the first statement of \<^verbatim>\<open>Roc.plot\<close>: \<^verbatim>\<open>self.calculate()\<close>, every
  argument at its default.
\<close>

definition plot_calculate :: "ext \<Rightarrow> roc \<Rightarrow> error + roc" where
  "plot_calculate ex s = calculate ex None None None (Interned ''optimal_overall'') False False s"

section \<open>apply_mask\<close>

text \<open>
  An argument of \<^verbatim>\<open>apply_mask\<close>: \<^verbatim>\<open>None\<close>, an object whose type is
  \<^verbatim>\<open>nib.nifti1.Nifti1Image\<close>, or an object of another type. \<open>'img\<close> is the type
  of images.
\<close>

datatype 'img py_obj = PyNone | Nifti 'img | Other

text \<open>What \<^verbatim>\<open>apply_mask\<close> returns: a numpy array with zero, one or two axes.\<close>

datatype ndarray = Scalar real | Vector "real list" | Matrix "real list list"

text \<open>
  What \<^verbatim>\<open>apply_mask\<close> imports is a parameter: the mask that \<^verbatim>\<open>nib.load\<close> reads from
  the resource directory; \<^verbatim>\<open>NiftiMasker(mask_img=mask).fit_transform(img)\<close>, which
  flattens an image set into a two-dimensional array, one row per image and one column
  per voxel of the mask; and \<^verbatim>\<open>pearson\<close>, imported from \<^verbatim>\<open>nltools.stats\<close>, a module
  that is not among the source files, so that nothing is assumed about the array it
  returns for two two-dimensional arrays. A two-dimensional array is the list of its
  rows.
\<close>

record 'img deps =
  default_mask :: "'img"
  fit_transform :: "'img \<Rightarrow> 'img \<Rightarrow> real list list"
  pearson :: "real list list \<Rightarrow> real list list \<Rightarrow> ndarray"

definition dot :: "real list \<Rightarrow> real list \<Rightarrow> real" where
  "dot a b = sum_list (map2 (*) a b)"

text \<open>
  \<^verbatim>\<open>np.dot(a, np.transpose(b))\<close> for two-dimensional arrays: every row of \<^verbatim>\<open>a\<close>
  with every row of \<^verbatim>\<open>b\<close>; ValueError when the rows are not of one length.
\<close>

definition np_dot_T :: "real list list \<Rightarrow> real list list \<Rightarrow> error + real list list" where
  "np_dot_T a b =
     (if list_all (\<lambda>r. list_all (\<lambda>w. length r = length w) b) a
      then Inr (map (\<lambda>r. map (\<lambda>w. dot r w) b) a)
      else Inl ValueError)"

text \<open>
  \<^verbatim>\<open>.squeeze()\<close> on an array of \<open>n\<close> rows and \<open>k\<close> columns: the axes of length
  one are removed.
\<close>

definition squeeze :: "nat \<Rightarrow> nat \<Rightarrow> real list list \<Rightarrow> ndarray" where
  "squeeze n k m =
     (if n = 1 \<and> k = 1 then Scalar (hd (hd m))
      else if n = 1 then Vector (hd m)
      else if k = 1 then Vector (map hd m)
      else Matrix m)"

text \<open>
  \<^verbatim>\<open>np.savetxt(fname, X, delimiter=",")\<close> (line 387) writes an array of one or two
  axes and raises ValueError (Expected 1D or 2D array, got 0D array instead) for an
  array without axes. The file system is taken to accept the write.
\<close>

definition np_savetxt :: "ndarray \<Rightarrow> error + unit" where
  "np_savetxt X = (case X of Scalar x \<Rightarrow> Inl ValueError | _ \<Rightarrow> Inr ())"

text \<open>
  \<^verbatim>\<open>apply_mask\<close> (lines 346-389). The local variable \<^verbatim>\<open>pexp\<close> is \<open>None\<close> while
  it is not bound. The file that \<^verbatim>\<open>np.savetxt\<close> writes is returned with the result, as
  the directory and the file name.
\<close>

definition apply_mask ::
  "'img deps \<Rightarrow> 'img py_obj \<Rightarrow> 'img py_obj \<Rightarrow> 'img py_obj \<Rightarrow> py_str \<Rightarrow> bool \<Rightarrow> string
     \<Rightarrow> error + ndarray \<times> (string \<times> string) option" where
  "apply_mask env data weight_map mask_img method save_output output_dir =
     bind (case mask_img of
             PyNone \<Rightarrow> Inr (default_mask env)
           | Nifti m \<Rightarrow> Inr m
           | Other \<Rightarrow> Inl ValueError) (\<lambda>m.
     bind (case data of Nifti d \<Rightarrow> Inr d | _ \<Rightarrow> Inl ValueError) (\<lambda>d.
     (let data_masked = fit_transform env m d in
      bind (case weight_map of Nifti w \<Rightarrow> Inr w | _ \<Rightarrow> Inl ValueError) (\<lambda>w.
      (let weight_map_masked = fit_transform env m w in
       bind (if is_literal method ''dot_product'' then
               bind (np_dot_T data_masked weight_map_masked) (\<lambda>p.
               Inr (Some (squeeze (length data_masked) (length weight_map_masked) p)))
             else if is_literal method ''correlation'' then
               Inr (Some (pearson env data_masked weight_map_masked))
             else Inr None) (\<lambda>pexp.
       bind (if save_output then
               bind (case pexp of None \<Rightarrow> Inl UnboundLocalError | Some p \<Rightarrow> Inr p) (\<lambda>p.
               bind (np_savetxt p) (\<lambda>u.
               Inr (Some (output_dir, ''Pattern_Expression_'' @ chars method @ ''.csv''))))
             else Inr None) (\<lambda>saved.
       bind (case pexp of None \<Rightarrow> Inl UnboundLocalError | Some p \<Rightarrow> Inr p) (\<lambda>p.
       Inr (p, saved)))))))))"
section \<open>The properties, in the specification's words\<close>

text \<open>
  The number of entries, an input value with its outcome, that satisfy \<open>P\<close>.
\<close>

definition n_entries :: "(real \<Rightarrow> bool \<Rightarrow> bool) \<Rightarrow> real list \<Rightarrow> bool list \<Rightarrow> nat" where
  "n_entries P iv bo = length (filter (\<lambda>(v, b). P v b) (zip iv bo))"

text \<open>
  The true positive rate at the criterion value \<open>x\<close>: the number of entries with a
  true outcome and an input value of at least \<open>x\<close>, divided by the number of entries
  with a true outcome. The false positive rate: the same over the entries with a false
  outcome.
\<close>

definition tpr_at :: "real list \<Rightarrow> bool list \<Rightarrow> real \<Rightarrow> real" where
  "tpr_at iv bo x =
     real (n_entries (\<lambda>v b. b \<and> x \<le> v) iv bo) / real (n_entries (\<lambda>v b. b) iv bo)"

definition fpr_at :: "real list \<Rightarrow> bool list \<Rightarrow> real \<Rightarrow> real" where
  "fpr_at iv bo x =
     real (n_entries (\<lambda>v b. \<not> b \<and> x \<le> v) iv bo) / real (n_entries (\<lambda>v b. \<not> b) iv bo)"

text \<open>
  The misclassification indicator at the threshold \<open>thr\<close>: an observation is
  misclassified when it is at or above the threshold and its outcome is false, or below
  the threshold and its outcome is true.
\<close>

definition misclassified :: "real \<Rightarrow> real list \<Rightarrow> bool list \<Rightarrow> bool list" where
  "misclassified thr iv bo = map2 (\<lambda>v b. (thr \<le> v) \<noteq> b) iv bo"

text \<open>
  The number of correct classifications at the criterion value \<open>x\<close>: the true
  positive rate times the number of true outcomes, plus one minus the false positive
  rate times the number of false outcomes.
\<close>

definition n_correct :: "real list \<Rightarrow> bool list \<Rightarrow> real \<Rightarrow> real" where
  "n_correct iv bo x =
     tpr_at iv bo x * real (n_entries (\<lambda>v b. b) iv bo) +
     (1 - fpr_at iv bo x) * real (n_entries (\<lambda>v b. \<not> b) iv bo)"

text \<open>
  The area under a curve given by its points, by the trapezoidal rule: between two
  consecutive points, the distance of their abscissas times the mean of their ordinates.
\<close>

fun trapezoid_area :: "(real \<times> real) list \<Rightarrow> real" where
  "trapezoid_area ((x0, y0) # (x1, y1) # ps) =
     \<bar>x1 - x0\<bar> * (y0 + y1) / 2 + trapezoid_area ((x1, y1) # ps)"
| "trapezoid_area ps = 0"

text \<open>The mask that \<^verbatim>\<open>apply_mask\<close> flattens with: the one given, or the default one.\<close>

definition chosen_mask :: "'img deps \<Rightarrow> 'img py_obj \<Rightarrow> 'img" where
  "chosen_mask env mask_img = (case mask_img of Nifti m \<Rightarrow> m | _ \<Rightarrow> default_mask env)"

section \<open>What the forced-choice statements compute\<close>

text \<open>
  The vector that lines 451-453 leave in \<^verbatim>\<open>self.input_values\<close> when there are as
  many true as false outcomes: zero where the outcome is true, and where it is false the
  false-outcome score minus the true-outcome score of the same rank.
\<close>

definition forced_scores :: "real list \<Rightarrow> bool list \<Rightarrow> real list" where
  "forced_scores iv bo =
     put (put iv bo (replicate (count_true bo) 0)) (invert bo)
       (map2 (-) (pick iv (invert bo)) (pick iv bo))"

text \<open>
  The vector that lines 437-441 leave stored: the argument of the call when it is not
  \<^verbatim>\<open>None\<close>, and the vector stored before otherwise.
\<close>

definition or_stored :: "'a option \<Rightarrow> 'a \<Rightarrow> 'a" where
  "or_stored arg v = (case arg of None \<Rightarrow> v | Some a \<Rightarrow> a)"

section \<open>Instances for runs on concrete inputs\<close>

text \<open>An instance of the external numerical functions.\<close>

definition ext0 :: ext where
  "ext0 = \<lparr>norm_ppf = (\<lambda>p. p), binom_test = (\<lambda>k n. 1), np_sqrt = (\<lambda>x. x)\<rparr>"

text \<open>
  An instance of what \<^verbatim>\<open>apply_mask\<close> imports, over images numbered by \<open>nat\<close>: image
  0 flattens to one row, every other image to two rows. The instance of \<^verbatim>\<open>pearson\<close>
  is a stand-in that returns one zero for each row of its first argument.
\<close>

definition env0 :: "nat deps" where
  "env0 = \<lparr>default_mask = 0,
            fit_transform = (\<lambda>m i. if i = 0 then [[1, 0, 2]] else [[1, 2, 3], [4, 5, 6]]),
            pearson = (\<lambda>d w. Vector (map (\<lambda>row. 0) d))\<rparr>"
section \<open>Facts about the vector operations\<close>

lemma bind_Inr [simp]: "bind (Inr x) f = f x"
  by (simp add: bind_def)

lemma bind_Inl [simp]: "bind (Inl e) f = Inl e"
  by (simp add: bind_def)

lemma bind_eq_Inr: "bind m f = Inr y \<longleftrightarrow> (\<exists>x. m = Inr x \<and> f x = Inr y)"
  by (cases m) simp_all

lemma attr_Some [simp]: "attr (Some v) = Inr v"
  by (simp add: attr_def)

lemma attr_None [simp]: "attr None = Inl AttributeError"
  by (simp add: attr_def)

lemma attr_eq_Inr: "attr a = Inr v \<longleftrightarrow> a = Some v"
  by (cases a) simp_all

lemma length_invert [simp]: "length (invert m) = length m"
  by (simp add: invert_def)

lemma invert_nth [simp]: "i < length m \<Longrightarrow> invert m ! i = (\<not> m ! i)"
  by (simp add: invert_def)

lemma count_true_Nil [simp]: "count_true [] = 0"
  by (simp add: count_true_def)

lemma count_true_Cons [simp]: "count_true (b # m) = (if b then Suc (count_true m) else count_true m)"
  by (simp add: count_true_def)

lemma invert_Nil [simp]: "invert [] = []"
  by (simp add: invert_def)

lemma invert_Cons [simp]: "invert (b # m) = (\<not> b) # invert m"
  by (simp add: invert_def)

lemma count_true_invert: "count_true m + count_true (invert m) = length m"
  by (induction m) auto

lemma count_true_le: "count_true m \<le> length m"
  by (induction m) auto

lemma count_true_pos: "0 < count_true m \<longleftrightarrow> True \<in> set m"
  by (induction m) auto

lemma count_true_invert_pos: "0 < count_true (invert m) \<longleftrightarrow> False \<in> set m"
  by (induction m) auto

lemma pick_Nil [simp]: "pick [] m = []" "pick a [] = []"
  by (simp_all add: pick_def)

lemma pick_Cons [simp]: "pick (x # a) (b # m) = (if b then x # pick a m else pick a m)"
  by (simp add: pick_def)

lemma length_pick: "length a = length m \<Longrightarrow> length (pick a m) = count_true m"
  by (induction a m rule: list_induct2) auto

lemma pick_map: "pick (map f a) m = map f (pick a m)"
  by (induction a arbitrary: m) (case_tac m; simp)+

lemma mask_index_eq [simp]: "length m = length a \<Longrightarrow> mask_index a m = Inr (pick a m)"
  by (simp add: mask_index_def)

lemma mask_index_eq_Inr: "mask_index a m = Inr r \<longleftrightarrow> length m = length a \<and> r = pick a m"
  by (auto simp: mask_index_def)

lemma bcast2_same [simp]: "length xs = length ys \<Longrightarrow> bcast2 f xs ys = Inr (map2 f xs ys)"
  by (simp add: bcast2_def)

lemma py_div_eq_Inr: "py_div a b = Inr r \<longleftrightarrow> b \<noteq> 0 \<and> r = a / b"
  by (auto simp: py_div_def)

lemma py_div_nz [simp]: "b \<noteq> 0 \<Longrightarrow> py_div a b = Inr (a / b)"
  by (simp add: py_div_def)

lemma py_div_zero [simp]: "py_div a 0 = Inl ZeroDivisionError"
  by (simp add: py_div_def)

lemma count_true_n_entries:
  "length iv = length bo \<Longrightarrow> count_true bo = n_entries (\<lambda>v b. b) iv bo"
  by (induction iv bo rule: list_induct2) (auto simp: n_entries_def)

lemma count_true_invert_n_entries:
  "length iv = length bo \<Longrightarrow> count_true (invert bo) = n_entries (\<lambda>v b. \<not> b) iv bo"
  by (induction iv bo rule: list_induct2) (auto simp: n_entries_def)

lemma count_pick_true:
  "length iv = length bo \<Longrightarrow>
     count_true (pick (map P iv) bo) = n_entries (\<lambda>v b. b \<and> P v) iv bo"
  by (induction iv bo rule: list_induct2) (auto simp: n_entries_def)

lemma count_pick_false:
  "length iv = length bo \<Longrightarrow>
     count_true (pick (map P iv) (invert bo)) = n_entries (\<lambda>v b. \<not> b \<and> P v) iv bo"
  by (induction iv bo rule: list_induct2) (auto simp: n_entries_def)

lemma rates_at_eq_Inr:
  "rates_at iv bo x = Inr (t, f) \<longleftrightarrow>
     length bo = length iv \<and> count_true bo \<noteq> 0 \<and> count_true (invert bo) \<noteq> 0 \<and>
     t = tpr_at iv bo x \<and> f = fpr_at iv bo x"
proof (cases "length bo = length iv")
  case False
  then show ?thesis by (simp add: rates_at_def mask_index_def)
next
  case True
  then have l: "length iv = length bo" by simp
  show ?thesis
    using True
    by (auto simp: rates_at_def Let_def bind_eq_Inr py_div_eq_Inr tpr_at_def fpr_at_def
        count_pick_true [OF l] count_pick_false [OF l]
        count_true_n_entries [OF l, symmetric] count_true_invert_n_entries [OF l, symmetric])
qed

lemma rates_loop_Inr:
  "rates_loop iv bo cv = Inr (ts, fs) \<Longrightarrow>
     ts = map (tpr_at iv bo) cv \<and> fs = map (fpr_at iv bo) cv"
  by (induction cv arbitrary: ts fs) (auto simp: rates_at_eq_Inr split: sum.splits prod.splits)

lemma rates_loop_total:
  "length bo = length iv \<Longrightarrow> count_true bo \<noteq> 0 \<Longrightarrow> count_true (invert bo) \<noteq> 0 \<Longrightarrow>
     rates_loop iv bo cv = Inr (map (tpr_at iv bo) cv, map (fpr_at iv bo) cv)"
proof (induction cv)
  case Nil
  then show ?case by simp
next
  case (Cons x cv)
  from Cons.prems have "rates_at iv bo x = Inr (tpr_at iv bo x, fpr_at iv bo x)"
    by (simp add: rates_at_eq_Inr)
  with Cons show ?case by simp
qed

lemma rates_loop_Inr_nonempty:
  "rates_loop iv bo cv = Inr r \<Longrightarrow> cv \<noteq> [] \<Longrightarrow>
     length bo = length iv \<and> count_true bo \<noteq> 0 \<and> count_true (invert bo) \<noteq> 0"
  by (cases cv; cases r) (auto simp: rates_at_eq_Inr split: sum.splits prod.splits)

lemma rates_loop_no_false:
  "count_true (invert bo) = 0 \<Longrightarrow> length bo = length iv \<Longrightarrow> count_true bo \<noteq> 0 \<Longrightarrow>
     rates_loop iv bo (x # cv) = Inl ZeroDivisionError"
  by (simp add: rates_at_def Let_def)

lemma rates_eq_Inr:
  "rates s = Inr s' \<longleftrightarrow>
     (\<exists>cv ts fs. criterion_values s = Some cv \<and>
        rates_loop (input_values s) (binary_outcome s) cv = Inr (ts, fs) \<and>
        s' = s\<lparr>tpr := Some ts, fpr := Some fs,
               n_true := Some (real (count_true (binary_outcome s))),
               n_false := Some (real (count_true (invert (binary_outcome s))))\<rparr>)"
  by (auto simp: rates_def bind_eq_Inr attr_eq_Inr split: prod.splits)

lemma area_under_curve_eq_Inr:
  "area_under_curve s = Inr s' \<longleftrightarrow>
     (\<exists>fs ts a. fpr s = Some fs \<and> tpr s = Some ts \<and> sk_auc fs ts = Inr a \<and>
        s' = s\<lparr>auc := Some a\<rparr>)"
  by (auto simp: area_under_curve_def bind_eq_Inr attr_eq_Inr)

lemma argmax_from_cases:
  "(argmax_from b bi i xs = bi \<and> (\<forall>x\<in>set xs. x \<le> b)) \<or>
   (\<exists>k<length xs. argmax_from b bi i xs = i + k \<and> b < xs ! k \<and> (\<forall>x\<in>set xs. x \<le> xs ! k))"
proof (induction xs arbitrary: b bi i)
  case Nil
  then show ?case by simp
next
  case (Cons x xs)
  show ?case
  proof (cases "b < x")
    case True
    from Cons.IH [of x i "Suc i"] show ?thesis
    proof
      assume "argmax_from x i (Suc i) xs = i \<and> (\<forall>y\<in>set xs. y \<le> x)"
      with True have "argmax_from b bi i (x # xs) = i + 0 \<and> b < (x # xs) ! 0 \<and>
        (\<forall>y\<in>set (x # xs). y \<le> (x # xs) ! 0)" by simp
      then show ?thesis by blast
    next
      assume "\<exists>k<length xs. argmax_from x i (Suc i) xs = Suc i + k \<and> x < xs ! k \<and>
        (\<forall>y\<in>set xs. y \<le> xs ! k)"
      then obtain k where k: "k < length xs" "argmax_from x i (Suc i) xs = Suc i + k"
        "x < xs ! k" "\<forall>y\<in>set xs. y \<le> xs ! k" by blast
      with True have "Suc k < length (x # xs) \<and> argmax_from b bi i (x # xs) = i + Suc k \<and>
        b < (x # xs) ! Suc k \<and> (\<forall>y\<in>set (x # xs). y \<le> (x # xs) ! Suc k)" by auto
      then show ?thesis by blast
    qed
  next
    case False
    from Cons.IH [of b bi "Suc i"] show ?thesis
    proof
      assume "argmax_from b bi (Suc i) xs = bi \<and> (\<forall>y\<in>set xs. y \<le> b)"
      with False show ?thesis by auto
    next
      assume "\<exists>k<length xs. argmax_from b bi (Suc i) xs = Suc i + k \<and> b < xs ! k \<and>
        (\<forall>y\<in>set xs. y \<le> xs ! k)"
      then obtain k where k: "k < length xs" "argmax_from b bi (Suc i) xs = Suc i + k"
        "b < xs ! k" "\<forall>y\<in>set xs. y \<le> xs ! k" by blast
      with False have "Suc k < length (x # xs) \<and> argmax_from b bi i (x # xs) = i + Suc k \<and>
        b < (x # xs) ! Suc k \<and> (\<forall>y\<in>set (x # xs). y \<le> (x # xs) ! Suc k)" by auto
      then show ?thesis by blast
    qed
  qed
qed

lemma argmax_Inr_set:
  assumes "argmax xs = Inr i"
  shows "i < length xs \<and> (\<forall>y\<in>set xs. y \<le> xs ! i)"
proof (cases xs)
  case Nil
  with assms show ?thesis by (simp add: argmax_def)
next
  case (Cons x r)
  with assms have i: "i = argmax_from x 0 1 r" by (simp add: argmax_def)
  from argmax_from_cases [of x 0 1 r] show ?thesis
  proof
    assume "argmax_from x 0 1 r = 0 \<and> (\<forall>y\<in>set r. y \<le> x)"
    with i Cons show ?thesis by auto
  next
    assume "\<exists>k<length r. argmax_from x 0 1 r = 1 + k \<and> x < r ! k \<and> (\<forall>y\<in>set r. y \<le> r ! k)"
    then obtain k where k: "k < length r" "argmax_from x 0 1 r = 1 + k" "x < r ! k"
      "\<forall>y\<in>set r. y \<le> r ! k" by blast
    with i Cons show ?thesis by auto
  qed
qed

lemma argmax_Inr:
  assumes "argmax xs = Inr i"
  shows "i < length xs \<and> (\<forall>j<length xs. xs ! j \<le> xs ! i)"
  using argmax_Inr_set [OF assms] by simp

lemma argmax_total: "xs \<noteq> [] \<Longrightarrow> \<exists>i. argmax xs = Inr i"
  by (cases xs) (simp_all add: argmax_def)

lemma argmax_Nil [simp]: "argmax [] = Inl ValueError"
  by (simp add: argmax_def)

lemma py_index_eq_Inr: "py_index a i = Inr v \<longleftrightarrow> i < length a \<and> v = a ! i"
  by (auto simp: py_index_def)

lemma bcast2_same_Inr: "length xs = length ys \<Longrightarrow> bcast2 f xs ys = Inr r \<longleftrightarrow> r = map2 f xs ys"
  by auto

section \<open>Facts about the statements of calculate\<close>

lemma outputs_frame:
  assumes "outputs s = Inr s'"
  shows "input_values s' = input_values s \<and> binary_outcome s' = binary_outcome s \<and>
    forced_choice s' = forced_choice s \<and> criterion_values s' = criterion_values s \<and>
    class_thr s' = class_thr s \<and> tpr s' = tpr s \<and> fpr s' = fpr s \<and> auc s' = auc s \<and>
    n_true s' = n_true s \<and> n_false s' = n_false s \<and> threshold_type s' = threshold_type s"
proof (cases "forced_choice s")
  case True
  with assms show ?thesis
    by (clarsimp simp: outputs_def Let_def bind_eq_Inr)
next
  case False
  with assms show ?thesis
    by (clarsimp simp: outputs_def Let_def bind_eq_Inr)
qed

lemma get_threshold_overall:
  assumes "get_threshold ex (Interned ''optimal_overall'') s = Inr s'"
    and "\<not> forced_choice s"
  shows "\<exists>ts fs nt nf cv sm i. tpr s = Some ts \<and> fpr s = Some fs \<and> n_true s = Some nt \<and>
      n_false s = Some nf \<and> criterion_values s = Some cv \<and>
      bcast2 (+) (map (\<lambda>t. t * nt) ts) (map (\<lambda>f. (1 - f) * nf) fs) = Inr sm \<and>
      argmax sm = Inr i \<and> i < length cv \<and>
      s' = s\<lparr>threshold_type := Interned ''optimal_overall'', class_thr := Some (cv ! i)\<rparr>"
  using assms
  by (simp add: get_threshold_def Let_def bind_eq_Inr attr_eq_Inr py_index_eq_Inr) blast

lemma get_threshold_forced:
  "forced_choice s \<Longrightarrow> get_threshold ex tt s = Inr s"
  by (simp add: get_threshold_def)

lemma get_threshold_balanced:
  "\<not> forced_choice s \<Longrightarrow> get_threshold ex (Interned ''optimal_balanced'') s = Inl NameError"
  by (simp add: get_threshold_def)

lemma outputs_sets:
  assumes "outputs s = Inr s'"
  shows "\<exists>mis sens spec. misclass s' = Some mis \<and> sensitivity s' = Some sens \<and>
    specificity s' = Some spec"
proof (cases "forced_choice s")
  case True
  with assms show ?thesis
    by (clarsimp simp: outputs_def Let_def bind_eq_Inr)
next
  case False
  with assms show ?thesis
    by (clarsimp simp: outputs_def Let_def bind_eq_Inr)
qed

lemma accuracy_stats_frame:
  assumes "accuracy_stats ex bal s = Inr s'"
  shows "input_values s' = input_values s \<and> binary_outcome s' = binary_outcome s \<and>
    forced_choice s' = forced_choice s \<and> criterion_values s' = criterion_values s \<and>
    class_thr s' = class_thr s \<and> tpr s' = tpr s \<and> fpr s' = fpr s \<and> auc s' = auc s \<and>
    n_true s' = n_true s \<and> n_false s' = n_false s \<and> threshold_type s' = threshold_type s \<and>
    misclass s' = misclass s \<and> sensitivity s' = sensitivity s \<and> specificity s' = specificity s"
  using assms
  by (clarsimp simp: accuracy_stats_def Let_def bind_eq_Inr)

lemma accuracy_stats_accuracy:
  assumes "accuracy_stats ex bal s = Inr s'"
  shows "\<exists>mis. misclass s = Some mis \<and> mis \<noteq> [] \<and>
     (if bal then \<exists>sens spec. sensitivity s = Some sens \<and> specificity s = Some spec \<and>
                   accuracy s' = Some ((sens + spec) / 2)
      else accuracy s' = Some (1 - mean_bool mis))"
proof (cases bal)
  case True
  with assms show ?thesis
    by (clarsimp simp: accuracy_stats_def Let_def bind_eq_Inr attr_eq_Inr py_div_eq_Inr)
next
  case False
  with assms show ?thesis
    by (clarsimp simp: accuracy_stats_def Let_def bind_eq_Inr attr_eq_Inr py_div_eq_Inr)
qed

lemma get_threshold_frame:
  assumes "get_threshold ex tt s = Inr s'"
  shows "input_values s' = input_values s \<and> binary_outcome s' = binary_outcome s \<and>
    forced_choice s' = forced_choice s \<and> criterion_values s' = criterion_values s \<and>
    tpr s' = tpr s \<and> fpr s' = fpr s \<and> auc s' = auc s \<and>
    n_true s' = n_true s \<and> n_false s' = n_false s"
proof (cases "forced_choice s")
  case True
  with assms show ?thesis by (simp add: get_threshold_def)
next
  case False
  show ?thesis
  proof (cases "is_literal tt ''optimal_overall''")
    case True
    with assms False show ?thesis
      by (clarsimp simp: get_threshold_def Let_def bind_eq_Inr split: if_splits)
  next
    case no: False
    show ?thesis
    proof (cases "is_literal tt ''minimum_sdt_bias''")
      case True
      with assms False no show ?thesis
        by (clarsimp simp: get_threshold_def Let_def bind_eq_Inr split: if_splits)
    next
      case False
      with assms no \<open>\<not> forced_choice s\<close> show ?thesis
        by (clarsimp simp: get_threshold_def Let_def split: if_splits)
    qed
  qed
qed

lemma area_under_curve_frame:
  assumes "area_under_curve s = Inr s'"
  shows "input_values s' = input_values s \<and> binary_outcome s' = binary_outcome s \<and>
    forced_choice s' = forced_choice s \<and> criterion_values s' = criterion_values s \<and>
    tpr s' = tpr s \<and> fpr s' = fpr s \<and> class_thr s' = class_thr s \<and>
    n_true s' = n_true s \<and> n_false s' = n_false s"
  using assms
  by (clarsimp simp: area_under_curve_eq_Inr)

lemma rates_frame:
  assumes "rates s = Inr s'"
  shows "input_values s' = input_values s \<and> binary_outcome s' = binary_outcome s \<and>
    forced_choice s' = forced_choice s \<and> criterion_values s' = criterion_values s \<and>
    class_thr s' = class_thr s"
  using assms
  by (clarsimp simp: rates_eq_Inr)

lemma calculate_eq_Inr:
  "calculate ex ivo boo cvo tt fc bal s = Inr s' \<longleftrightarrow>
     (\<exists>s1 s2 s3 s4 s5 s6.
        create_criterion_values cvo (set_inputs ivo boo s) = Inr s1 \<and>
        forced_choice_transform fc s1 = Inr s2 \<and>
        rates s2 = Inr s3 \<and>
        area_under_curve s3 = Inr s4 \<and>
        get_threshold ex tt s4 = Inr s5 \<and>
        outputs s5 = Inr s6 \<and>
        accuracy_stats ex bal s6 = Inr s')"
  by (simp add: calculate_def bind_eq_Inr)

lemma py_min_eq: "xs \<noteq> [] \<Longrightarrow> py_min xs = Inr (Min (set xs))"
proof (cases xs)
  case Nil
  then show "xs \<noteq> [] \<Longrightarrow> ?thesis" by simp
next
  case (Cons a r)
  have "Min (set (a # r)) = fold min r a" by (rule Min.set_eq_fold)
  with Cons show ?thesis by (simp add: py_min_def)
qed

lemma py_max_eq: "xs \<noteq> [] \<Longrightarrow> py_max xs = Inr (Max (set xs))"
proof (cases xs)
  case Nil
  then show "xs \<noteq> [] \<Longrightarrow> ?thesis" by simp
next
  case (Cons a r)
  have "Max (set (a # r)) = fold max r a" by (rule Max.set_eq_fold)
  with Cons show ?thesis by (simp add: py_max_def)
qed

lemma create_criterion_values_Some:
  "create_criterion_values (Some cv) s = Inr (s\<lparr>criterion_values := Some cv\<rparr>)"
  by (simp add: create_criterion_values_def)

lemma create_criterion_values_None:
  "input_values s \<noteq> [] \<Longrightarrow>
     create_criterion_values None s =
       Inr (s\<lparr>criterion_values := Some (linspace (Min (set (input_values s)))
              (Max (set (input_values s))) (50 * length (binary_outcome s)))\<rparr>)"
  by (simp add: create_criterion_values_def py_min_eq py_max_eq)

lemma create_criterion_values_frame:
  assumes "create_criterion_values cvo s = Inr s'"
  shows "input_values s' = input_values s \<and> binary_outcome s' = binary_outcome s \<and>
    forced_choice s' = forced_choice s \<and> class_thr s' = class_thr s \<and>
    (\<exists>cv. criterion_values s' = Some cv)"
proof (cases cvo)
  case None
  with assms show ?thesis
    by (clarsimp simp: create_criterion_values_def bind_eq_Inr)
next
  case (Some cv)
  with assms show ?thesis
    by (clarsimp simp: create_criterion_values_def)
qed

lemma length_put [simp]: "length (put a m v) = length a"
  by (induction a m v rule: put.induct) auto

lemma forced_choice_transform_off:
  "\<not> fc \<Longrightarrow> \<not> forced_choice s \<Longrightarrow> forced_choice_transform fc s = Inr s"
  by (simp add: forced_choice_transform_def)

lemma mask_assign_eq_Inr:
  "mask_assign a m v = Inr r \<Longrightarrow> length r = length a \<and> length m = length a"
  by (auto simp: mask_assign_def split: if_splits)

lemma forced_choice_transform_frame:
  assumes "forced_choice_transform fc s = Inr s'"
  shows "binary_outcome s' = binary_outcome s \<and> criterion_values s' = criterion_values s \<and>
    forced_choice s' = (fc \<or> forced_choice s) \<and>
    length (input_values s') = length (input_values s) \<and>
    (fc \<or> forced_choice s \<longrightarrow> class_thr s' = Some 0)"
proof (cases "fc \<or> forced_choice s")
  case False
  with assms show ?thesis by (auto simp: forced_choice_transform_def)
next
  case True
  with assms show ?thesis
    by (simp add: forced_choice_transform_def Let_def bind_eq_Inr)
      (elim exE conjE, drule mask_assign_eq_Inr, drule mask_assign_eq_Inr, auto)
qed

lemma n_entries_mono:
  "(\<And>v b. P v b \<Longrightarrow> Q v b) \<Longrightarrow> n_entries P iv bo \<le> n_entries Q iv bo"
proof -
  assume pq: "\<And>v b. P v b \<Longrightarrow> Q v b"
  have "length (filter (\<lambda>(v, b). P v b) zs) \<le> length (filter (\<lambda>(v, b). Q v b) zs)" for zs
    by (induction zs) (auto dest: pq)
  then show ?thesis by (simp add: n_entries_def)
qed

lemma fpr_at_antimono: "x \<le> y \<Longrightarrow> fpr_at iv bo y \<le> fpr_at iv bo x"
proof -
  assume xy: "x \<le> y"
  have "n_entries (\<lambda>v b. \<not> b \<and> y \<le> v) iv bo \<le> n_entries (\<lambda>v b. \<not> b \<and> x \<le> v) iv bo"
    using xy by (intro n_entries_mono) auto
  then show ?thesis
    by (simp add: fpr_at_def divide_right_mono)
qed

lemma tpr_at_antimono: "x \<le> y \<Longrightarrow> tpr_at iv bo y \<le> tpr_at iv bo x"
proof -
  assume xy: "x \<le> y"
  have "n_entries (\<lambda>v b. b \<and> y \<le> v) iv bo \<le> n_entries (\<lambda>v b. b \<and> x \<le> v) iv bo"
    using xy by (intro n_entries_mono) auto
  then show ?thesis
    by (simp add: tpr_at_def divide_right_mono)
qed

lemma diff_map_antimono:
  assumes "\<And>x y. x \<le> y \<Longrightarrow> f y \<le> f x"
  shows "sorted cv \<Longrightarrow> list_all (\<lambda>d. d \<le> 0) (diff (map f cv))"
proof (induction cv)
  case Nil
  then show ?case by simp
next
  case (Cons a cv)
  then show ?case
    by (cases cv) (auto simp: assms)
qed

lemma trapz_flat: "list_all (\<lambda>d. d = 0) (diff x) \<Longrightarrow> trapz y x = 0"
  by (induction y x rule: trapz.induct) auto

lemma sk_auc_decreasing:
  assumes "length x = length y" "2 \<le> length x" "list_all (\<lambda>d. d \<le> 0) (diff x)"
  shows "sk_auc x y = Inr (- trapz y x)"
proof (cases "list_ex (\<lambda>d. d < 0) (diff x)")
  case True
  with assms show ?thesis by (simp add: sk_auc_def)
next
  case False
  with assms(3) have "list_all (\<lambda>d. d = 0) (diff x)"
    by (fastforce simp: list_all_iff list_ex_iff)
  then have "trapz y x = 0" by (rule trapz_flat)
  with False assms show ?thesis by (simp add: sk_auc_def)
qed

lemma length_linspace [simp]: "length (linspace a b n) = n"
  by (simp add: linspace_def)

lemma sorted_affine: "0 \<le> (c::real) \<Longrightarrow> sorted (map (\<lambda>i. a + real i * c) [0..<n])"
  unfolding sorted_map
  by (rule sorted_wrt_mono_rel [of _ "(\<le>)"]) (auto intro: mult_right_mono)

lemma sorted_linspace: "a \<le> b \<Longrightarrow> sorted (linspace a b n)"
proof -
  assume ab: "a \<le> b"
  have step: "0 \<le> (b - a) / real (n - 1)" using ab by simp
  show ?thesis
    unfolding linspace_def using sorted_affine [OF step] by simp
qed

lemma linspace_bounds:
  assumes "a \<le> b" "x \<in> set (linspace a b n)"
  shows "a \<le> x \<and> x \<le> b"
proof (cases "n = 1")
  case True
  with assms show ?thesis by (simp add: linspace_def)
next
  case False
  with assms obtain i where i: "i < n" "x = a + real i * ((b - a) / real (n - 1))"
    by (auto simp: linspace_def)
  from i(1) have n1: "0 < real (n - 1)" using False by simp
  have ile: "real i \<le> real (n - 1)" using i(1) by simp
  have "real i * ((b - a) / real (n - 1)) \<le> real (n - 1) * ((b - a) / real (n - 1))"
    using ile assms(1) by (intro mult_right_mono) simp_all
  also have "\<dots> = b - a" using n1 by simp
  finally have up: "x \<le> b" using i(2) by simp
  have "0 \<le> real i * ((b - a) / real (n - 1))" using assms(1) by simp
  then have "a \<le> x" using i(2) by simp
  with up show ?thesis by simp
qed

lemma Roc_init_eq_Inr:
  "Roc_init iv bo tt fc = Inr s \<Longrightarrow>
     length iv = length bo \<and> True \<in> set bo \<and> chars tt \<in> set thr_type \<and>
     input_values s = iv \<and> binary_outcome s = bo \<and> threshold_type s = tt \<and>
     forced_choice s = fc \<and> criterion_values s = None \<and> class_thr s = None"
  by (auto simp: Roc_init_def list_ex_iff split: if_splits)

lemma set_inputs_None [simp]: "set_inputs None None s = s"
  by (simp add: set_inputs_def)

lemma confusion_vectors:
  assumes "length iv = length bo"
  shows "map2 (\<or>) (map2 (\<and>) (map (\<lambda>v. v < thr) iv) bo)
           (map2 (\<and>) (map (\<lambda>v. thr \<le> v) iv) (invert bo)) = misclassified thr iv bo"
  using assms
  by (induction iv bo rule: list_induct2) (auto simp: misclassified_def)

lemma length_misclassified [simp]:
  "length (misclassified thr iv bo) = min (length iv) (length bo)"
  by (simp add: misclassified_def)

lemma predicted_positive_count:
  assumes "length iv = length bo"
  shows "count_true (map2 (\<and>) bo (invert (misclassified thr iv bo))) +
         count_true (map2 (\<and>) (map (\<lambda>v. thr \<le> v) iv) (invert bo)) =
         length (filter (\<lambda>v. thr \<le> v) iv)"
  using assms
  by (induction iv bo rule: list_induct2) (auto simp: misclassified_def)

lemma outputs_not_forced:
  assumes "\<not> forced_choice s" "class_thr s = Some thr"
    "length (binary_outcome s) = length (input_values s)"
    "n_true s = Some nt" "nt \<noteq> 0" "n_false s = Some nf" "nf \<noteq> 0"
    "\<exists>v\<in>set (input_values s). thr \<le> v"
  shows "\<exists>s'. outputs s = Inr s' \<and>
     misclass s' = Some (misclassified thr (input_values s) (binary_outcome s)) \<and>
     sensitivity s' = Some (real (count_true (map (\<lambda>v. thr \<le> v)
        (pick (input_values s) (binary_outcome s)))) / nt) \<and>
     specificity s' = Some (1 - real (count_true (map (\<lambda>v. thr \<le> v)
        (pick (input_values s) (invert (binary_outcome s))))) / nf)"
proof -
  let ?iv = "input_values s" and ?bo = "binary_outcome s"
  have l: "length ?iv = length ?bo" using assms(3) by simp
  have "filter (\<lambda>v. thr \<le> v) ?iv \<noteq> []"
    using assms(8) by (simp add: filter_empty_conv)
  then have pos: "0 < length (filter (\<lambda>v. thr \<le> v) ?iv)" by simp
  have den: "real (count_true (map2 (\<and>) ?bo (invert (misclassified thr ?iv ?bo)))) +
         real (count_true (map2 (\<and>) (map (\<lambda>v. thr \<le> v) ?iv) (invert ?bo))) \<noteq> 0"
    using predicted_positive_count [OF l, of thr] pos
    by (metis of_nat_add of_nat_0_eq_iff less_numeral_extra(3))
  show ?thesis
    using assms(1,2,4-7) l den
    by (simp add: outputs_def Let_def confusion_vectors [OF l])
qed

lemma accuracy_stats_total:
  assumes "misclass s = Some mis" "mis \<noteq> []" "sensitivity s = Some sens"
    "specificity s = Some spec"
  shows "\<exists>s'. accuracy_stats ex bal s = Inr s'"
  using assms by (simp add: accuracy_stats_def Let_def)

lemma rates_total:
  assumes "criterion_values s = Some cv"
    "length (binary_outcome s) = length (input_values s)"
    "True \<in> set (binary_outcome s)" "False \<in> set (binary_outcome s)"
  shows "rates s = Inr (s\<lparr>tpr := Some (map (tpr_at (input_values s) (binary_outcome s)) cv),
       fpr := Some (map (fpr_at (input_values s) (binary_outcome s)) cv),
       n_true := Some (real (count_true (binary_outcome s))),
       n_false := Some (real (count_true (invert (binary_outcome s))))\<rparr>)"
proof -
  have "count_true (binary_outcome s) \<noteq> 0" "count_true (invert (binary_outcome s)) \<noteq> 0"
    using assms(3,4) count_true_pos count_true_invert_pos by (metis less_numeral_extra(3))+
  with assms(1,2) show ?thesis
    by (simp add: rates_def rates_loop_total)
qed

lemma area_under_curve_total:
  assumes "criterion_values s = Some cv" "sorted cv" "2 \<le> length cv"
    "tpr s = Some (map (tpr_at iv bo) cv)" "fpr s = Some (map (fpr_at iv bo) cv)"
  shows "area_under_curve s =
    Inr (s\<lparr>auc := Some (- trapz (map (tpr_at iv bo) cv) (map (fpr_at iv bo) cv))\<rparr>)"
proof -
  have "list_all (\<lambda>d. d \<le> 0) (diff (map (fpr_at iv bo) cv))"
    using assms(2) by (intro diff_map_antimono fpr_at_antimono)
  then have "sk_auc (map (fpr_at iv bo) cv) (map (tpr_at iv bo) cv) =
      Inr (- trapz (map (tpr_at iv bo) cv) (map (fpr_at iv bo) cv))"
    using assms(3) by (intro sk_auc_decreasing) simp_all
  with assms(4,5) show ?thesis
    by (simp add: area_under_curve_def)
qed

lemma get_threshold_overall_total:
  assumes "\<not> forced_choice s" "criterion_values s = Some cv" "cv \<noteq> []"
    "tpr s = Some ts" "fpr s = Some fs" "length ts = length cv" "length fs = length cv"
    "n_true s = Some nt" "n_false s = Some nf"
  shows "\<exists>i<length cv. get_threshold ex (Interned ''optimal_overall'') s =
     Inr (s\<lparr>threshold_type := Interned ''optimal_overall'', class_thr := Some (cv ! i)\<rparr>)"
proof -
  let ?sm = "map2 (+) (map (\<lambda>t. t * nt) ts) (map (\<lambda>f. (1 - f) * nf) fs)"
  have len: "length ?sm = length cv" using assms(6,7) by simp
  then have "?sm \<noteq> []" using assms(3) by (metis length_0_conv)
  then obtain i where i: "argmax ?sm = Inr i" using argmax_total by blast
  from argmax_Inr [OF i] have "i < length ?sm" by blast
  then have "i < length cv" using len by metis
  moreover have "get_threshold ex (Interned ''optimal_overall'') s =
     Inr (s\<lparr>threshold_type := Interned ''optimal_overall'', class_thr := Some (cv ! i)\<rparr>)"
    using i assms \<open>i < length cv\<close> by (simp add: get_threshold_def Let_def py_index_def)
  ultimately show ?thesis by blast
qed

lemma linspace_default:
  assumes "iv \<noteq> []" "length bo = length iv"
  shows "sorted (linspace (Min (set iv)) (Max (set iv)) (50 * length bo))"
    "2 \<le> length (linspace (Min (set iv)) (Max (set iv)) (50 * length bo))"
    "\<forall>x\<in>set (linspace (Min (set iv)) (Max (set iv)) (50 * length bo)). x \<le> Max (set iv)"
proof -
  have le: "Min (set iv) \<le> Max (set iv)" using assms(1) by simp
  show "sorted (linspace (Min (set iv)) (Max (set iv)) (50 * length bo))"
    using le by (rule sorted_linspace)
  have "0 < length iv" using assms(1) by simp
  then have "2 \<le> 50 * length bo" using assms(2) by arith
  then show "2 \<le> length (linspace (Min (set iv)) (Max (set iv)) (50 * length bo))"
    by (simp only: length_linspace)
  show "\<forall>x\<in>set (linspace (Min (set iv)) (Max (set iv)) (50 * length bo)). x \<le> Max (set iv)"
    using linspace_bounds [OF le] by blast
qed

lemma calculate_overall_total:
  assumes "Roc_init iv bo tt0 False = Inr s" "False \<in> set bo"
  shows "\<exists>s'. calculate ex None None None (Interned ''optimal_overall'') False bal s = Inr s'"
proof -
  from Roc_init_eq_Inr [OF assms(1)]
  have s: "length iv = length bo" "True \<in> set bo" "input_values s = iv"
    "binary_outcome s = bo" "forced_choice s = False" by simp_all
  have ne: "iv \<noteq> []" using s(1,2) by auto
  define cv where "cv = linspace (Min (set iv)) (Max (set iv)) (50 * length bo)"
  have cvp: "sorted cv" "2 \<le> length cv" "\<forall>x\<in>set cv. x \<le> Max (set iv)"
    unfolding cv_def using linspace_default [OF ne s(1) [symmetric]] by simp_all
  define s1 where "s1 = s\<lparr>criterion_values := Some cv\<rparr>"
  have c1: "create_criterion_values None (set_inputs None None s) = Inr s1"
    using ne s(3,4) by (simp add: create_criterion_values_None s1_def cv_def)
  have c2: "forced_choice_transform False s1 = Inr s1"
    using s(5) by (simp add: forced_choice_transform_off s1_def)
  define ts where "ts = map (tpr_at iv bo) cv"
  define fs where "fs = map (fpr_at iv bo) cv"
  define s3 where "s3 = s1\<lparr>tpr := Some ts, fpr := Some fs,
       n_true := Some (real (count_true bo)),
       n_false := Some (real (count_true (invert bo)))\<rparr>"
  have c3: "rates s1 = Inr s3"
    using rates_total [of s1 cv] s assms(2) by (simp add: s1_def s3_def ts_def fs_def)
  define s4 where "s4 = s3\<lparr>auc := Some (- trapz ts fs)\<rparr>"
  have c4: "area_under_curve s3 = Inr s4"
    using area_under_curve_total [of s3 cv iv bo] cvp(1,2)
    by (simp add: s1_def s3_def s4_def ts_def fs_def)
  have "cv \<noteq> []" using cvp(2) by auto
  then obtain i where i: "i < length cv"
    "get_threshold ex (Interned ''optimal_overall'') s4 =
       Inr (s4\<lparr>threshold_type := Interned ''optimal_overall'', class_thr := Some (cv ! i)\<rparr>)"
    using get_threshold_overall_total [of s4 cv ts fs "real (count_true bo)"
        "real (count_true (invert bo))" ex] s(5)
    by (auto simp: s1_def s3_def s4_def ts_def fs_def)
  define s5 where "s5 = s4\<lparr>threshold_type := Interned ''optimal_overall'', class_thr := Some (cv ! i)\<rparr>"
  have nz: "real (count_true bo) \<noteq> 0" "real (count_true (invert bo)) \<noteq> 0"
    using s(2) assms(2) count_true_pos [of bo] count_true_invert_pos [of bo] by simp_all
  have "cv ! i \<le> Max (set iv)" using cvp(3) i(1) by simp
  moreover have "Max (set iv) \<in> set iv" using ne by simp
  ultimately have ex_v: "\<exists>v\<in>set iv. cv ! i \<le> v" by blast
  obtain s6 where s6: "outputs s5 = Inr s6"
    "misclass s6 = Some (misclassified (cv ! i) iv bo)"
    "\<exists>a. sensitivity s6 = Some a" "\<exists>b. specificity s6 = Some b"
    using outputs_not_forced [of s5 "cv ! i" "real (count_true bo)" "real (count_true (invert bo))"]
      s nz ex_v
    by (auto simp: s1_def s3_def s4_def s5_def)
  have "misclassified (cv ! i) iv bo \<noteq> []"
    using ne s(1) by (metis length_misclassified length_0_conv min.idem)
  with s6 obtain s7 where "accuracy_stats ex bal s6 = Inr s7"
    using accuracy_stats_total [of s6 _ _ _ ex bal] by blast
  with c1 c2 c3 c4 i(2) s6(1) show ?thesis
    unfolding calculate_eq_Inr s5_def by blast
qed

lemma rates_after_calculate:
  assumes "calculate ex ivo boo cvo tt fc bal s = Inr s'"
  shows "\<exists>cv. criterion_values s' = Some cv \<and>
      tpr s' = Some (map (tpr_at (input_values s') (binary_outcome s')) cv) \<and>
      fpr s' = Some (map (fpr_at (input_values s') (binary_outcome s')) cv)"
proof -
  from assms obtain s1 s2 s3 s4 s5 s6 where st:
    "create_criterion_values cvo (set_inputs ivo boo s) = Inr s1"
    "forced_choice_transform fc s1 = Inr s2" "rates s2 = Inr s3"
    "area_under_curve s3 = Inr s4" "get_threshold ex tt s4 = Inr s5"
    "outputs s5 = Inr s6" "accuracy_stats ex bal s6 = Inr s'"
    unfolding calculate_eq_Inr by blast
  from st(3) obtain cv ts fs where r: "criterion_values s2 = Some cv"
    "rates_loop (input_values s2) (binary_outcome s2) cv = Inr (ts, fs)"
    "tpr s3 = Some ts" "fpr s3 = Some fs"
    by (auto simp: rates_eq_Inr)
  from rates_loop_Inr [OF r(2)]
  have tf: "ts = map (tpr_at (input_values s2) (binary_outcome s2)) cv"
    "fs = map (fpr_at (input_values s2) (binary_outcome s2)) cv" by simp_all
  have "input_values s' = input_values s2" "binary_outcome s' = binary_outcome s2"
    "criterion_values s' = criterion_values s2" "tpr s' = tpr s3" "fpr s' = fpr s3"
    using rates_frame [OF st(3)] area_under_curve_frame [OF st(4)]
      get_threshold_frame [OF st(5)] outputs_frame [OF st(6)] accuracy_stats_frame [OF st(7)]
    by simp_all
  with r(1,3,4) tf show ?thesis by simp
qed

lemma inputs_after_calculate:
  assumes "calculate ex None None cvo tt fc bal s = Inr s'"
  shows "binary_outcome s' = binary_outcome s \<and>
     length (input_values s') = length (input_values s) \<and>
     (\<not> fc \<and> \<not> forced_choice s \<longrightarrow> input_values s' = input_values s)"
proof -
  from assms obtain s1 s2 s3 s4 s5 s6 where st:
    "create_criterion_values cvo s = Inr s1"
    "forced_choice_transform fc s1 = Inr s2" "rates s2 = Inr s3"
    "area_under_curve s3 = Inr s4" "get_threshold ex tt s4 = Inr s5"
    "outputs s5 = Inr s6" "accuracy_stats ex bal s6 = Inr s'"
    unfolding calculate_eq_Inr by auto
  have a: "input_values s' = input_values s2" "binary_outcome s' = binary_outcome s2"
    using rates_frame [OF st(3)] area_under_curve_frame [OF st(4)]
      get_threshold_frame [OF st(5)] outputs_frame [OF st(6)] accuracy_stats_frame [OF st(7)]
    by simp_all
  have b: "binary_outcome s2 = binary_outcome s" "length (input_values s2) = length (input_values s)"
    "forced_choice s1 = forced_choice s" "input_values s1 = input_values s"
    using create_criterion_values_frame [OF st(1)] forced_choice_transform_frame [OF st(2)]
    by simp_all
  have "\<not> fc \<and> \<not> forced_choice s \<longrightarrow> s2 = s1"
    using st(2) b(3) by (auto simp: forced_choice_transform_off)
  with a b show ?thesis by auto
qed

lemma pick_put_same:
  "length a = length m \<Longrightarrow> length v = count_true m \<Longrightarrow> pick (put a m v) m = v"
proof (induction a m arbitrary: v rule: list_induct2)
  case Nil
  then show ?case by simp
next
  case (Cons x a b m)
  show ?case
  proof (cases v)
    case Nil
    with Cons show ?thesis by (cases b) (auto simp: length_pick)
  next
    case (Cons y w)
    with Cons.prems Cons.IH [of w] Cons.IH [of "y # w"] show ?thesis by (cases b) auto
  qed
qed

lemma pick_put_other:
  "length a = length m \<Longrightarrow> pick (put a m v) (invert m) = pick a (invert m)"
proof (induction a m arbitrary: v rule: list_induct2)
  case Nil
  then show ?case by simp
next
  case (Cons x a b m)
  show ?case
  proof (cases v)
    case Nil
    then show ?thesis by simp
  next
    case (Cons y w)
    with Cons.IH [of w] Cons.IH [of "y # w"] show ?thesis by (cases b) auto
  qed
qed

lemma invert_invert [simp]: "invert (invert m) = m"
  by (induction m) auto

lemma pick_put_other':
  "length a = length m \<Longrightarrow> pick (put a (invert m) v) m = pick a m"
  using pick_put_other [of a "invert m" v] by simp

lemma map2_minus_self: "map2 (-) t t = replicate (length t) (0::real)"
  by (induction t) auto

lemma half_double: "map (\<lambda>x. x / 2) (map2 (+) t t) = (t :: real list)"
  by (induction t) auto

lemma forced_choice_transform_paired:
  assumes "fc \<or> forced_choice s" "length (binary_outcome s) = length (input_values s)"
    "count_true (invert (binary_outcome s)) = count_true (binary_outcome s)"
  shows "forced_choice_transform fc s =
     Inr (s\<lparr>forced_choice := True,
            input_values :=
              put (put (input_values s) (binary_outcome s)
                     (replicate (count_true (binary_outcome s)) 0))
                (invert (binary_outcome s))
                (map2 (-) (pick (input_values s) (invert (binary_outcome s)))
                   (pick (input_values s) (binary_outcome s))),
            class_thr := Some 0\<rparr>)"
proof -
  let ?iv = "input_values s" and ?bo = "binary_outcome s"
  have l: "length ?iv = length ?bo" using assms(2) by simp
  have lt: "length (pick ?iv ?bo) = count_true ?bo" using l by (rule length_pick)
  have lf: "length (pick ?iv (invert ?bo)) = count_true ?bo"
    using length_pick [of ?iv "invert ?bo"] l assms(3) by simp
  have a1: "mask_assign ?iv ?bo (replicate (count_true ?bo) 0) =
      Inr (put ?iv ?bo (replicate (count_true ?bo) 0))"
    using l by (simp add: mask_assign_def)
  have a2: "mask_assign (put ?iv ?bo (replicate (count_true ?bo) 0)) (invert ?bo)
        (map2 (-) (pick ?iv (invert ?bo)) (pick ?iv ?bo)) =
      Inr (put (put ?iv ?bo (replicate (count_true ?bo) 0)) (invert ?bo)
        (map2 (-) (pick ?iv (invert ?bo)) (pick ?iv ?bo)))"
    using l lt lf assms(3) by (simp add: mask_assign_def)
  show ?thesis
    using assms(1) l lt lf a1 a2
    by (simp add: forced_choice_transform_def Let_def half_double map2_minus_self
        pick_put_other del: map_map)
qed

lemma set_pick_subset: "set (pick a m) \<subseteq> set a"
  unfolding pick_def by (auto dest: set_zip_leftD)

lemma outputs_forced:
  assumes "forced_choice s" "class_thr s = Some thr"
    "length (binary_outcome s) = length (input_values s)"
    "n_true s = Some nt" "nt \<noteq> 0" "n_false s = Some nf" "nf \<noteq> 0"
    "\<exists>v\<in>set (input_values s). thr \<le> v"
    "count_true (invert (binary_outcome s)) = count_true (binary_outcome s)"
  shows "\<exists>s' mis sens spec. outputs s = Inr s' \<and> misclass s' = Some mis \<and>
     length mis = count_true (binary_outcome s) \<and>
     sensitivity s' = Some sens \<and> specificity s' = Some spec"
proof -
  let ?iv = "input_values s" and ?bo = "binary_outcome s"
  have l: "length ?iv = length ?bo" using assms(3) by simp
  have "filter (\<lambda>v. thr \<le> v) ?iv \<noteq> []"
    using assms(8) by (simp add: filter_empty_conv)
  then have pos: "0 < length (filter (\<lambda>v. thr \<le> v) ?iv)" by simp
  have den: "real (count_true (map2 (\<and>) ?bo (invert (misclassified thr ?iv ?bo)))) +
         real (count_true (map2 (\<and>) (map (\<lambda>v. thr \<le> v) ?iv) (invert ?bo))) \<noteq> 0"
    using predicted_positive_count [OF l, of thr] pos
    by (metis of_nat_add of_nat_0_eq_iff less_numeral_extra(3))
  have lp: "length (pick (map2 (\<and>) (map (\<lambda>v. thr \<le> v) ?iv) (invert ?bo)) (invert ?bo)) =
      count_true ?bo"
    using length_pick [of "map2 (\<and>) (map (\<lambda>v. thr \<le> v) ?iv) (invert ?bo)" "invert ?bo"] l assms(9)
    by simp
  have ln: "length (pick (map2 (\<and>) (map (\<lambda>v. v < thr) ?iv) ?bo) ?bo) = count_true ?bo"
    using length_pick [of "map2 (\<and>) (map (\<lambda>v. v < thr) ?iv) ?bo" ?bo] l by simp
  show ?thesis
    using assms(1,2,4-7) l den lp ln
    by (simp add: outputs_def Let_def confusion_vectors [OF l])
qed

lemma length_forced_scores [simp]: "length (forced_scores iv bo) = length iv"
  by (simp add: forced_scores_def)

lemma pick_forced_scores_true:
  assumes "length iv = length bo"
  shows "pick (forced_scores iv bo) bo = replicate (count_true bo) 0"
proof -
  have "pick (forced_scores iv bo) bo = pick (put iv bo (replicate (count_true bo) 0)) bo"
    unfolding forced_scores_def using assms by (intro pick_put_other') simp
  also have "\<dots> = replicate (count_true bo) 0"
    using assms by (intro pick_put_same) simp_all
  finally show ?thesis .
qed

lemma n_entries_split:
  assumes "\<And>v b. R v b \<longleftrightarrow> P v b \<or> Q v b" "\<And>v b. \<not> (P v b \<and> Q v b)"
  shows "n_entries P iv bo + n_entries Q iv bo = n_entries R iv bo"
proof -
  have "length (filter (\<lambda>(v, b). P v b) zs) + length (filter (\<lambda>(v, b). Q v b) zs) =
      length (filter (\<lambda>(v, b). R v b) zs)" for zs
    using assms by (induction zs) auto
  then show ?thesis by (simp add: n_entries_def)
qed

lemma n_correct_count:
  assumes "length iv = length bo" "True \<in> set bo" "False \<in> set bo"
  shows "n_correct iv bo x = real (n_entries (\<lambda>v b. (x \<le> v) = b) iv bo)"
proof -
  let ?nt = "n_entries (\<lambda>v b. b) iv bo" and ?nf = "n_entries (\<lambda>v b. \<not> b) iv bo"
  have nt: "real ?nt \<noteq> 0"
    using assms(1,2) count_true_pos [of bo] count_true_n_entries [of iv bo] by simp
  have nf: "real ?nf \<noteq> 0"
    using assms(1,3) count_true_invert_pos [of bo] count_true_invert_n_entries [of iv bo] by simp
  have a: "tpr_at iv bo x * real ?nt = real (n_entries (\<lambda>v b. b \<and> x \<le> v) iv bo)"
    using nt by (simp add: tpr_at_def)
  have "n_entries (\<lambda>v b. \<not> b \<and> x \<le> v) iv bo + n_entries (\<lambda>v b. \<not> b \<and> \<not> x \<le> v) iv bo = ?nf"
    by (rule n_entries_split) auto
  then have "real ?nf - real (n_entries (\<lambda>v b. \<not> b \<and> x \<le> v) iv bo) =
      real (n_entries (\<lambda>v b. \<not> b \<and> \<not> x \<le> v) iv bo)"
    by (metis add_diff_cancel_left' of_nat_add)
  moreover have "(1 - fpr_at iv bo x) * real ?nf =
      real ?nf - real (n_entries (\<lambda>v b. \<not> b \<and> x \<le> v) iv bo)"
    using nf by (simp add: fpr_at_def algebra_simps)
  ultimately have b: "(1 - fpr_at iv bo x) * real ?nf =
      real (n_entries (\<lambda>v b. \<not> b \<and> \<not> x \<le> v) iv bo)" by simp
  have "n_entries (\<lambda>v b. b \<and> x \<le> v) iv bo + n_entries (\<lambda>v b. \<not> b \<and> \<not> x \<le> v) iv bo =
      n_entries (\<lambda>v b. (x \<le> v) = b) iv bo"
    by (rule n_entries_split) auto
  then have "real (n_entries (\<lambda>v b. b \<and> x \<le> v) iv bo) +
      real (n_entries (\<lambda>v b. \<not> b \<and> \<not> x \<le> v) iv bo) =
      real (n_entries (\<lambda>v b. (x \<le> v) = b) iv bo)"
    by (metis of_nat_add)
  with a b show ?thesis by (simp add: n_correct_def)
qed

lemma map2_map_same: "map2 f (map g xs) (map h xs) = map (\<lambda>x. f (g x) (h x)) xs"
  by (induction xs) auto

lemma calculate_overall_threshold:
  assumes "calculate ex None None cvo (Interned ''optimal_overall'') False bal s = Inr s'"
    and "\<not> forced_choice s"
  shows "\<exists>cv i. criterion_values s' = Some cv \<and> i < length cv \<and> class_thr s' = Some (cv ! i) \<and>
     (\<forall>j<length cv. n_correct (input_values s) (binary_outcome s) (cv ! j)
         \<le> n_correct (input_values s) (binary_outcome s) (cv ! i))"
proof -
  let ?iv = "input_values s" and ?bo = "binary_outcome s"
  from assms(1) obtain s1 s2 s3 s4 s5 s6 where st:
    "create_criterion_values cvo s = Inr s1"
    "forced_choice_transform False s1 = Inr s2" "rates s2 = Inr s3"
    "area_under_curve s3 = Inr s4"
    "get_threshold ex (Interned ''optimal_overall'') s4 = Inr s5"
    "outputs s5 = Inr s6" "accuracy_stats ex bal s6 = Inr s'"
    unfolding calculate_eq_Inr by auto
  have f1: "input_values s1 = ?iv" "binary_outcome s1 = ?bo" "\<not> forced_choice s1"
    using create_criterion_values_frame [OF st(1)] assms(2) by simp_all
  then have s21: "s2 = s1" using st(2) by (simp add: forced_choice_transform_off)
  from st(3) obtain cv ts fs where r: "criterion_values s2 = Some cv"
    "rates_loop (input_values s2) (binary_outcome s2) cv = Inr (ts, fs)"
    "tpr s3 = Some ts" "fpr s3 = Some fs"
    "n_true s3 = Some (real (count_true (binary_outcome s2)))"
    "n_false s3 = Some (real (count_true (invert (binary_outcome s2))))"
    by (auto simp: rates_eq_Inr)
  have tf: "ts = map (tpr_at ?iv ?bo) cv" "fs = map (fpr_at ?iv ?bo) cv"
    using rates_loop_Inr [OF r(2)] s21 f1 by simp_all
  have s4f: "tpr s4 = Some ts" "fpr s4 = Some fs" "criterion_values s4 = Some cv"
    "n_true s4 = Some (real (count_true ?bo))"
    "n_false s4 = Some (real (count_true (invert ?bo)))" "\<not> forced_choice s4"
    using area_under_curve_frame [OF st(4)] rates_frame [OF st(3)] r s21 f1 by simp_all
  from get_threshold_overall [OF st(5) s4f(6)] s4f
  obtain sm i where g:
    "bcast2 (+) (map (\<lambda>t. t * real (count_true ?bo)) ts)
       (map (\<lambda>f. (1 - f) * real (count_true (invert ?bo))) fs) = Inr sm"
    "argmax sm = Inr i" "i < length cv" "class_thr s5 = Some (cv ! i)"
    by auto
  have out: "class_thr s' = Some (cv ! i)" "criterion_values s' = Some cv"
    using accuracy_stats_frame [OF st(7)] outputs_frame [OF st(6)]
      get_threshold_frame [OF st(5)] g(4) s4f(3) by simp_all
  show ?thesis
  proof (cases "cv = []")
    case True
    with g(3) show ?thesis by simp
  next
    case False
    from rates_loop_Inr_nonempty [OF r(2) False] s21 f1
    have l: "length ?iv = length ?bo" by simp
    have cnt: "real (count_true ?bo) = real (n_entries (\<lambda>v b. b) ?iv ?bo)"
      "real (count_true (invert ?bo)) = real (n_entries (\<lambda>v b. \<not> b) ?iv ?bo)"
      using count_true_n_entries [OF l] count_true_invert_n_entries [OF l] by simp_all
    have "sm = map2 (+) (map (\<lambda>t. t * real (count_true ?bo)) ts)
       (map (\<lambda>f. (1 - f) * real (count_true (invert ?bo))) fs)"
      using g(1) by (simp add: tf)
    also have "\<dots> = map (n_correct ?iv ?bo) cv"
      unfolding tf map_map comp_def map2_map_same cnt n_correct_def by (rule refl)
    finally have sm: "sm = map (n_correct ?iv ?bo) cv" .
    from argmax_Inr [OF g(2)] have "\<forall>j<length sm. sm ! j \<le> sm ! i" by blast
    with sm g(3) have "\<forall>j<length cv. n_correct ?iv ?bo (cv ! j) \<le> n_correct ?iv ?bo (cv ! i)"
      by simp
    with out g(3) show ?thesis by blast
  qed
qed

lemma outputs_Inr_not_forced:
  assumes "outputs s = Inr s'" "\<not> forced_choice s"
  shows "\<exists>thr. class_thr s = Some thr \<and>
     length (binary_outcome s) = length (input_values s) \<and>
     misclass s' = Some (misclassified thr (input_values s) (binary_outcome s))"
proof -
  from assms(1) obtain thr where t: "class_thr s = Some thr"
    by (auto simp: outputs_def Let_def bind_eq_Inr attr_eq_Inr)
  have l: "length (binary_outcome s) = length (input_values s)"
  proof (rule ccontr)
    assume "length (binary_outcome s) \<noteq> length (input_values s)"
    then have "mask_index (input_values s) (binary_outcome s) = Inl IndexError"
      by (simp add: mask_index_def)
    with assms(1) t show False
      by (simp add: outputs_def Let_def bind_def split: sum.splits)
  qed
  then have l': "length (input_values s) = length (binary_outcome s)" by simp
  from assms t l have "misclass s' = Some (misclassified thr (input_values s) (binary_outcome s))"
    by (clarsimp simp: outputs_def Let_def bind_eq_Inr confusion_vectors [OF l'])
  with t l show ?thesis by blast
qed

lemma mean_bool_invert:
  assumes "mis \<noteq> []"
  shows "1 - mean_bool mis = real (count_true (invert mis)) / real (length mis)"
proof -
  have "real (count_true mis) + real (count_true (invert mis)) = real (length mis)"
    using count_true_invert [of mis] by (metis of_nat_add)
  moreover have "real (length mis) \<noteq> 0" using assms by simp
  ultimately show ?thesis
    by (simp add: mean_bool_def field_simps)
qed

lemma accuracy_after_calculate:
  assumes "calculate ex ivo boo cvo tt fc bal s = Inr s'"
  shows "\<exists>mis sens spec. misclass s' = Some mis \<and> mis \<noteq> [] \<and>
     sensitivity s' = Some sens \<and> specificity s' = Some spec \<and>
     accuracy s' = Some (if bal then (sens + spec) / 2 else 1 - mean_bool mis)"
proof -
  from assms obtain s5 s6 where st: "outputs s5 = Inr s6" "accuracy_stats ex bal s6 = Inr s'"
    unfolding calculate_eq_Inr by blast
  from outputs_sets [OF st(1)] obtain mis sens spec where o: "misclass s6 = Some mis"
    "sensitivity s6 = Some sens" "specificity s6 = Some spec" by blast
  from accuracy_stats_accuracy [OF st(2)] o
  have a: "mis \<noteq> []" "accuracy s' = Some (if bal then (sens + spec) / 2 else 1 - mean_bool mis)"
    by (auto split: if_splits)
  from accuracy_stats_frame [OF st(2)] o
  have "misclass s' = Some mis" "sensitivity s' = Some sens" "specificity s' = Some spec"
    by simp_all
  with a show ?thesis by blast
qed

lemma calculate_misclass_not_forced:
  assumes "calculate ex None None cvo tt False bal s = Inr s'" "\<not> forced_choice s"
  shows "\<exists>thr. class_thr s' = Some thr \<and>
     misclass s' = Some (misclassified thr (input_values s) (binary_outcome s))"
proof -
  from assms(1) obtain s1 s2 s3 s4 s5 s6 where st:
    "create_criterion_values cvo s = Inr s1"
    "forced_choice_transform False s1 = Inr s2" "rates s2 = Inr s3"
    "area_under_curve s3 = Inr s4" "get_threshold ex tt s4 = Inr s5"
    "outputs s5 = Inr s6" "accuracy_stats ex bal s6 = Inr s'"
    unfolding calculate_eq_Inr by auto
  have f1: "input_values s1 = input_values s" "binary_outcome s1 = binary_outcome s"
    "\<not> forced_choice s1"
    using create_criterion_values_frame [OF st(1)] assms(2) by simp_all
  then have s21: "s2 = s1" using st(2) by (simp add: forced_choice_transform_off)
  have f5: "input_values s5 = input_values s" "binary_outcome s5 = binary_outcome s"
    "\<not> forced_choice s5"
    using rates_frame [OF st(3)] area_under_curve_frame [OF st(4)]
      get_threshold_frame [OF st(5)] s21 f1 by simp_all
  from outputs_Inr_not_forced [OF st(6) f5(3)] f5(1,2)
  obtain thr where "class_thr s5 = Some thr"
    "misclass s6 = Some (misclassified thr (input_values s) (binary_outcome s))" by auto
  then have "class_thr s' = Some thr"
    "misclass s' = Some (misclassified thr (input_values s) (binary_outcome s))"
    using outputs_frame [OF st(6)] accuracy_stats_frame [OF st(7)] by simp_all
  then show ?thesis by blast
qed

lemma calculate_until_threshold:
  assumes "Roc_init iv bo tt0 False = Inr s" "False \<in> set bo"
  shows "\<exists>s4. \<not> forced_choice s4 \<and>
     calculate ex None None None tt False bal s =
       bind (get_threshold ex tt s4) (\<lambda>s5. bind (outputs s5) (\<lambda>s6. accuracy_stats ex bal s6))"
proof -
  from Roc_init_eq_Inr [OF assms(1)]
  have s: "length iv = length bo" "True \<in> set bo" "input_values s = iv"
    "binary_outcome s = bo" "forced_choice s = False" by simp_all
  have ne: "iv \<noteq> []" using s(1,2) by auto
  define cv where "cv = linspace (Min (set iv)) (Max (set iv)) (50 * length bo)"
  have cvp: "sorted cv" "2 \<le> length cv"
    unfolding cv_def using linspace_default [OF ne s(1) [symmetric]] by simp_all
  define s1 where "s1 = s\<lparr>criterion_values := Some cv\<rparr>"
  have c1: "create_criterion_values None (set_inputs None None s) = Inr s1"
    using ne s(3,4) by (simp add: create_criterion_values_None s1_def cv_def)
  have c2: "forced_choice_transform False s1 = Inr s1"
    using s(5) by (simp add: forced_choice_transform_off s1_def)
  define ts where "ts = map (tpr_at iv bo) cv"
  define fs where "fs = map (fpr_at iv bo) cv"
  define s3 where "s3 = s1\<lparr>tpr := Some ts, fpr := Some fs,
       n_true := Some (real (count_true bo)),
       n_false := Some (real (count_true (invert bo)))\<rparr>"
  have c3: "rates s1 = Inr s3"
    using rates_total [of s1 cv] s assms(2) by (simp add: s1_def s3_def ts_def fs_def)
  define s4 where "s4 = s3\<lparr>auc := Some (- trapz ts fs)\<rparr>"
  have c4: "area_under_curve s3 = Inr s4"
    using area_under_curve_total [of s3 cv iv bo] cvp(1,2)
    by (simp add: s1_def s3_def s4_def ts_def fs_def)
  have nf: "\<not> forced_choice s4" using s(5) by (simp add: s1_def s3_def s4_def)
  have "calculate ex None None None tt False bal s =
       bind (get_threshold ex tt s4) (\<lambda>s5. bind (outputs s5) (\<lambda>s6. accuracy_stats ex bal s6))"
    unfolding calculate_def c1 bind_Inr c2 c3 c4 by (rule refl)
  with nf show ?thesis by blast
qed

lemma calculate_balanced_never_returns:
  assumes "\<not> forced_choice s"
  shows "calculate ex None None cvo (Interned ''optimal_balanced'') False bal s \<noteq> Inr s'"
proof
  assume "calculate ex None None cvo (Interned ''optimal_balanced'') False bal s = Inr s'"
  then obtain s1 s2 s3 s4 s5 where st:
    "create_criterion_values cvo s = Inr s1"
    "forced_choice_transform False s1 = Inr s2" "rates s2 = Inr s3"
    "area_under_curve s3 = Inr s4"
    "get_threshold ex (Interned ''optimal_balanced'') s4 = Inr s5"
    unfolding calculate_eq_Inr by auto
  have "\<not> forced_choice s4"
    using create_criterion_values_frame [OF st(1)] forced_choice_transform_frame [OF st(2)]
      rates_frame [OF st(3)] area_under_curve_frame [OF st(4)] assms by simp
  then have "get_threshold ex (Interned ''optimal_balanced'') s4 = Inl NameError"
    by (rule get_threshold_balanced)
  with st(5) show False by simp
qed

lemma all_true_counts:
  assumes "\<forall>b\<in>set bo. b"
  shows "count_true bo = length bo" "count_true (invert bo) = 0"
  using assms by (induction bo) auto

lemma rates_all_true:
  assumes "criterion_values s = Some (x # cv)"
    "length (binary_outcome s) = length (input_values s)"
    "binary_outcome s \<noteq> []" "\<forall>b\<in>set (binary_outcome s). b"
  shows "rates s = Inl ZeroDivisionError"
proof -
  have "count_true (binary_outcome s) \<noteq> 0" "count_true (invert (binary_outcome s)) = 0"
    using all_true_counts [OF assms(4)] assms(3) by simp_all
  then have "rates_loop (input_values s) (binary_outcome s) (x # cv) = Inl ZeroDivisionError"
    using assms(2) by (intro rates_loop_no_false) simp_all
  with assms(1) show ?thesis by (simp add: rates_def)
qed

lemma linspace_default_Cons:
  assumes "bo \<noteq> []"
  shows "\<exists>x cv. linspace a b (50 * length bo) = x # cv"
proof -
  have "length (linspace a b (50 * length bo)) \<noteq> 0" using assms by simp
  then show ?thesis by (metis length_0_conv neq_Nil_conv)
qed

lemma calculate_forced_total:
  assumes "input_values s = iv" "binary_outcome s = bo" "forced_choice s = fc0"
    "length iv = length bo" "True \<in> set bo" "fc \<or> fc0"
    "count_true (invert bo) = count_true bo"
  shows "\<exists>s'. calculate ex None None None tt fc bal s = Inr s' \<and>
     input_values s' = forced_scores iv bo \<and> class_thr s' = Some 0 \<and> forced_choice s' \<and>
     binary_outcome s' = bo"
proof -
  have s: "length iv = length bo" "True \<in> set bo" "input_values s = iv"
    "binary_outcome s = bo" "forced_choice s = fc0" using assms(1-5) by simp_all
  have ne: "iv \<noteq> []" using s(1,2) by auto
  have ntp: "0 < count_true bo" using s(2) by (simp add: count_true_pos)
  then have nfp: "0 < count_true (invert bo)" using assms(7) by simp
  then have fal: "False \<in> set bo" by (simp add: count_true_invert_pos)
  define cv where "cv = linspace (Min (set iv)) (Max (set iv)) (50 * length bo)"
  have cvp: "sorted cv" "2 \<le> length cv"
    unfolding cv_def using linspace_default [OF ne s(1) [symmetric]] by simp_all
  define s1 where "s1 = s\<lparr>criterion_values := Some cv\<rparr>"
  have c1: "create_criterion_values None (set_inputs None None s) = Inr s1"
    using ne s(3,4) by (simp add: create_criterion_values_None s1_def cv_def)
  define iv2 where "iv2 = forced_scores iv bo"
  define s2 where "s2 = s1\<lparr>forced_choice := True, input_values := iv2, class_thr := Some 0\<rparr>"
  have c2: "forced_choice_transform fc s1 = Inr s2"
  proof -
    have p1: "fc \<or> forced_choice s1" using assms(6) s(5) by (simp add: s1_def)
    have p2: "length (binary_outcome s1) = length (input_values s1)"
      using s(1,3,4) by (simp add: s1_def)
    have p3: "count_true (invert (binary_outcome s1)) = count_true (binary_outcome s1)"
      using assms(7) s(4) by (simp add: s1_def)
    have i: "input_values s1 = iv" "binary_outcome s1 = bo" using s(3,4) by (simp_all add: s1_def)
    show ?thesis
      unfolding forced_choice_transform_paired [OF p1 p2 p3] s2_def iv2_def forced_scores_def i
      by (rule refl)
  qed
  define ts where "ts = map (tpr_at iv2 bo) cv"
  define fs where "fs = map (fpr_at iv2 bo) cv"
  define s3 where "s3 = s2\<lparr>tpr := Some ts, fpr := Some fs,
       n_true := Some (real (count_true bo)),
       n_false := Some (real (count_true (invert bo)))\<rparr>"
  have c3: "rates s2 = Inr s3"
    using rates_total [of s2 cv] s fal
    by (simp add: s1_def s2_def s3_def ts_def fs_def iv2_def)
  define s4 where "s4 = s3\<lparr>auc := Some (- trapz ts fs)\<rparr>"
  have c4: "area_under_curve s3 = Inr s4"
    using area_under_curve_total [of s3 cv iv2 bo] cvp(1,2)
    by (simp add: s1_def s2_def s3_def s4_def ts_def fs_def)
  have c5: "get_threshold ex tt s4 = Inr s4"
    by (rule get_threshold_forced) (simp add: s1_def s2_def s3_def s4_def)
  have nz: "real (count_true bo) \<noteq> 0" "real (count_true (invert bo)) \<noteq> 0"
    using ntp nfp by simp_all
  have "pick iv2 bo = replicate (count_true bo) 0"
    unfolding iv2_def using s(1) by (rule pick_forced_scores_true)
  then have "0 \<in> set (pick iv2 bo)" using ntp by simp
  then have "0 \<in> set iv2" by (rule rev_subsetD [OF _ set_pick_subset])
  then have ex_v: "\<exists>v\<in>set iv2. 0 \<le> v" by auto
  obtain s6 mis sens spec where s6: "outputs s4 = Inr s6" "misclass s6 = Some mis"
    "length mis = count_true bo" "sensitivity s6 = Some sens" "specificity s6 = Some spec"
    using outputs_forced [of s4 0 "real (count_true bo)" "real (count_true (invert bo))"]
      s nz ex_v assms(7)
    by (auto simp: s1_def s2_def s3_def s4_def iv2_def)
  have "mis \<noteq> []" using s6(3) ntp by auto
  with s6 obtain s7 where s7: "accuracy_stats ex bal s6 = Inr s7"
    using accuracy_stats_total [of s6 mis sens spec ex bal] by blast
  have "input_values s7 = iv2" "class_thr s7 = Some 0" "forced_choice s7" "binary_outcome s7 = bo"
    using accuracy_stats_frame [OF s7] outputs_frame [OF s6(1)] s(4)
    by (simp_all add: s1_def s2_def s3_def s4_def)
  with c1 c2 c3 c4 c5 s6(1) s7 show ?thesis
    unfolding calculate_eq_Inr iv2_def by blast
qed

lemma put_no_values [simp]: "put xs bs [] = xs"
  by (cases xs; cases bs) simp_all

lemma put_False [simp]: "put (x # xs) (False # bs) vs = x # put xs bs vs"
  by (cases vs) simp_all

lemma put_pick: "length a = length m \<Longrightarrow> put a m (pick a m) = a"
  by (induction a m rule: list_induct2) auto

lemma map2_minus_zeros: "length d = n \<Longrightarrow> map2 (-) d (replicate n (0::real)) = d"
  by (induction d arbitrary: n) auto

lemma pick_forced_scores_false:
  assumes "length iv = length bo" "count_true (invert bo) = count_true bo"
  shows "pick (forced_scores iv bo) (invert bo) = map2 (-) (pick iv (invert bo)) (pick iv bo)"
proof -
  have "length (pick iv (invert bo)) = count_true (invert bo)"
    using assms(1) by (intro length_pick) simp
  moreover have "length (pick iv bo) = count_true bo" using assms(1) by (rule length_pick)
  ultimately have "length (map2 (-) (pick iv (invert bo)) (pick iv bo)) = count_true (invert bo)"
    using assms(2) by simp
  then show ?thesis
    unfolding forced_scores_def using assms(1) by (intro pick_put_same) simp_all
qed

lemma forced_scores_idem:
  assumes "length iv = length bo" "count_true (invert bo) = count_true bo"
  shows "forced_scores (forced_scores iv bo) bo = forced_scores iv bo"
proof -
  let ?f = "forced_scores iv bo"
  have l: "length ?f = length bo" using assms(1) by simp
  have t: "pick ?f bo = replicate (count_true bo) 0"
    using assms(1) by (rule pick_forced_scores_true)
  have "length (pick ?f (invert bo)) = count_true bo"
    using length_pick [of ?f "invert bo"] l assms(2) by simp
  then have d: "map2 (-) (pick ?f (invert bo)) (replicate (count_true bo) 0) = pick ?f (invert bo)"
    by (rule map2_minus_zeros)
  have p1: "put ?f bo (replicate (count_true bo) 0) = ?f"
    using put_pick [OF l] t by simp
  have p2: "put ?f (invert bo) (pick ?f (invert bo)) = ?f"
    using l by (intro put_pick) simp
  have "forced_scores ?f bo =
      put (put ?f bo (replicate (count_true bo) 0)) (invert bo)
        (map2 (-) (pick ?f (invert bo)) (pick ?f bo))"
    by (simp add: forced_scores_def)
  also have "\<dots> = ?f" unfolding t d p1 p2 by (rule refl)
  finally show ?thesis .
qed

lemma put_stacked:
  "length ts = n \<Longrightarrow> put (ts @ fs) (replicate n True @ m) (replicate n z @ vs) =
     replicate n z @ put fs m vs"
  by (induction ts arbitrary: n) auto

lemma put_skip:
  "length ts = n \<Longrightarrow> put (ts @ fs) (replicate n False @ m) vs = ts @ put fs m vs"
proof (induction ts arbitrary: n)
  case Nil
  then show ?case by simp
next
  case (Cons t ts)
  then show ?case by (cases vs) auto
qed

lemma put_all: "length fs = length vs \<Longrightarrow> put fs (replicate (length fs) True) vs = vs"
  by (induction fs vs rule: list_induct2) auto

lemma pick_stacked:
  "length ts = n \<Longrightarrow> length fs = k \<Longrightarrow>
     pick (ts @ fs) (replicate n True @ replicate k False) = ts \<and>
     pick (ts @ fs) (replicate n False @ replicate k True) = fs"
proof (induction ts arbitrary: n)
  case Nil
  then show ?case by (induction fs arbitrary: k) auto
next
  case (Cons t ts)
  then show ?case by auto
qed

lemma invert_stacked:
  "invert (replicate n True @ replicate k False) = replicate n False @ replicate k True"
  by (simp add: invert_def)

lemma count_true_stacked:
  "count_true (replicate n True @ replicate k False) = n"
  "count_true (replicate n False @ replicate k True) = k"
  by (induction n) (simp_all add: count_true_def)

lemma forced_scores_stacked:
  assumes "length ts = length fs"
  shows "forced_scores (ts @ fs) (replicate (length ts) True @ replicate (length fs) False) =
     replicate (length ts) 0 @ map2 (-) fs ts"
proof -
  let ?n = "length ts"
  have p: "pick (ts @ fs) (replicate ?n True @ replicate (length fs) False) = ts"
    "pick (ts @ fs) (replicate ?n False @ replicate (length fs) True) = fs"
    using pick_stacked [of ts ?n fs "length fs"] by simp_all
  have a: "put (ts @ fs) (replicate ?n True @ replicate (length fs) False) (replicate ?n 0) =
      replicate ?n 0 @ fs"
    using put_stacked [of ts ?n fs "replicate (length fs) False" 0 "[]"] by simp
  have b: "put (replicate ?n 0 @ fs) (replicate ?n False @ replicate (length fs) True)
        (map2 (-) fs ts) = replicate ?n 0 @ map2 (-) fs ts"
    using put_skip [of "replicate ?n 0" ?n fs "replicate (length fs) True" "map2 (-) fs ts"]
      put_all [of fs "map2 (-) fs ts"] assms by simp
  show ?thesis
    unfolding forced_scores_def invert_stacked count_true_stacked p a b by (rule refl)
qed

section \<open>Facts about the area under the curve and about apply_mask\<close>

lemma trapz_decreasing:
  "list_all (\<lambda>d. d \<le> 0) (diff xs) \<Longrightarrow> - trapz ys xs = trapezoid_area (zip xs ys)"
proof (induction xs arbitrary: ys)
  case Nil
  then show ?case by simp
next
  case (Cons x0 xs)
  show ?case
  proof (cases ys)
    case Nil
    then show ?thesis by simp
  next
    case ys: (Cons y0 ys1)
    show ?thesis
    proof (cases xs)
      case Nil
      with ys show ?thesis by simp
    next
      case xs: (Cons x1 xs1)
      show ?thesis
      proof (cases ys1)
        case Nil
        with ys xs show ?thesis by simp
      next
        case (Cons y1 ys2)
        from Cons.prems xs have "x1 - x0 \<le> 0" "list_all (\<lambda>d. d \<le> 0) (diff xs)" by simp_all
        with Cons.IH [of ys1] ys xs Cons show ?thesis by (simp add: field_simps)
      qed
    qed
  qed
qed

lemma auc_after_calculate:
  assumes "calculate ex None None cvo tt fc bal s = Inr s'"
    and "cvo = None \<or> (\<exists>cv. cvo = Some cv \<and> sorted cv)"
  shows "\<exists>fs ts. fpr s' = Some fs \<and> tpr s' = Some ts \<and> length fs = length ts \<and>
     auc s' = Some (trapezoid_area (zip fs ts))"
proof -
  from assms(1) obtain s1 s2 s3 s4 s5 s6 where st:
    "create_criterion_values cvo s = Inr s1"
    "forced_choice_transform fc s1 = Inr s2" "rates s2 = Inr s3"
    "area_under_curve s3 = Inr s4" "get_threshold ex tt s4 = Inr s5"
    "outputs s5 = Inr s6" "accuracy_stats ex bal s6 = Inr s'"
    unfolding calculate_eq_Inr by auto
  have "\<exists>cv. criterion_values s1 = Some cv \<and> sorted cv"
  proof (cases cvo)
    case None
    have ne: "input_values s \<noteq> []"
    proof
      assume "input_values s = []"
      then have "create_criterion_values None s = Inl ValueError"
        by (simp add: create_criterion_values_def py_min_def)
      with st(1) None show False by simp
    qed
    then have "Min (set (input_values s)) \<le> Max (set (input_values s))" by simp
    then have "sorted (linspace (Min (set (input_values s))) (Max (set (input_values s)))
        (50 * length (binary_outcome s)))"
      by (rule sorted_linspace)
    then show ?thesis
      using st(1) None create_criterion_values_None [OF ne] by auto
  next
    case (Some cv)
    with assms(2) have "sorted cv" by simp
    then show ?thesis
      using st(1) Some by (auto simp: create_criterion_values_Some)
  qed
  then obtain cv where cv1: "criterion_values s1 = Some cv" and sorted: "sorted cv" by blast
  from cv1 have cv2: "criterion_values s2 = Some cv"
    using forced_choice_transform_frame [OF st(2)] by simp
  from st(3) cv2 obtain ts fs where r:
    "rates_loop (input_values s2) (binary_outcome s2) cv = Inr (ts, fs)"
    "tpr s3 = Some ts" "fpr s3 = Some fs"
    by (auto simp: rates_eq_Inr)
  have tf: "ts = map (tpr_at (input_values s2) (binary_outcome s2)) cv"
    "fs = map (fpr_at (input_values s2) (binary_outcome s2)) cv"
    using rates_loop_Inr [OF r(1)] by simp_all
  have dec: "list_all (\<lambda>d. d \<le> 0) (diff fs)"
    unfolding tf using sorted by (intro diff_map_antimono fpr_at_antimono)
  from st(4) r(2,3) obtain a where a: "sk_auc fs ts = Inr a" "auc s4 = Some a"
    by (auto simp: area_under_curve_eq_Inr)
  have len: "length fs = length ts" by (simp add: tf)
  have "2 \<le> length fs"
  proof (rule ccontr)
    assume "\<not> 2 \<le> length fs"
    then have "sk_auc fs ts = Inl ValueError" by (simp add: sk_auc_def)
    with a(1) show False by simp
  qed
  from sk_auc_decreasing [OF len this dec] a(1)
  have "a = - trapz ts fs" by simp
  then have "a = trapezoid_area (zip fs ts)" using trapz_decreasing [OF dec] by simp
  moreover have "fpr s' = Some fs" "tpr s' = Some ts" "auc s' = Some a"
    using area_under_curve_frame [OF st(4)] get_threshold_frame [OF st(5)]
      outputs_frame [OF st(6)] accuracy_stats_frame [OF st(7)] r(2,3) a(2) by simp_all
  ultimately show ?thesis using len by blast
qed

lemma apply_mask_masked:
  assumes "data = Nifti d" "weight_map = Nifti w" "mask_img \<noteq> Other"
  shows "apply_mask env data weight_map mask_img method save_output output_dir =
     bind (if is_literal method ''dot_product'' then
             bind (np_dot_T (fit_transform env (chosen_mask env mask_img) d)
                     (fit_transform env (chosen_mask env mask_img) w)) (\<lambda>p.
             Inr (Some (squeeze (length (fit_transform env (chosen_mask env mask_img) d))
                          (length (fit_transform env (chosen_mask env mask_img) w)) p)))
           else if is_literal method ''correlation'' then
             Inr (Some (pearson env (fit_transform env (chosen_mask env mask_img) d)
                          (fit_transform env (chosen_mask env mask_img) w)))
           else Inr None) (\<lambda>pexp.
     bind (if save_output then
             bind (case pexp of None \<Rightarrow> Inl UnboundLocalError | Some p \<Rightarrow> Inr p) (\<lambda>p.
             bind (np_savetxt p) (\<lambda>u.
             Inr (Some (output_dir, ''Pattern_Expression_'' @ chars method @ ''.csv''))))
           else Inr None) (\<lambda>saved.
     bind (case pexp of None \<Rightarrow> Inl UnboundLocalError | Some p \<Rightarrow> Inr p) (\<lambda>p.
     Inr (p, saved))))"
  using assms
  by (cases mask_img) (simp_all add: apply_mask_def chosen_mask_def Let_def)

lemma np_savetxt_Scalar: "np_savetxt (Scalar x) = Inl ValueError"
  by (simp add: np_savetxt_def)

lemma np_savetxt_Vector: "np_savetxt (Vector v) = Inr ()"
  by (simp add: np_savetxt_def)

lemma np_savetxt_not_Scalar: "(\<forall>x. X \<noteq> Scalar x) \<Longrightarrow> np_savetxt X = Inr ()"
  by (cases X) (simp_all add: np_savetxt_def)

lemma apply_mask_Inr_method:
  assumes "apply_mask env data weight_map mask_img method save_output output_dir = Inr r"
  shows "is_literal method ''dot_product'' \<or> is_literal method ''correlation''"
proof (rule ccontr)
  assume n: "\<not> (is_literal method ''dot_product'' \<or> is_literal method ''correlation'')"
  have "apply_mask env data weight_map mask_img method save_output output_dir \<noteq> Inr r"
    using n
    by (cases mask_img; cases data; cases weight_map)
      (simp_all add: apply_mask_def Let_def)
  with assms show False by simp
qed

lemma is_literal_chars: "is_literal m lit \<Longrightarrow> chars m = lit"
  by (cases m) simp_all

lemma is_literal_iff: "is_literal m lit \<longleftrightarrow> m = Interned lit"
  by (cases m) auto

lemma np_dot_T_rows:
  assumes "\<forall>row\<in>set rows. length row = length wv"
  shows "np_dot_T rows [wv] = Inr (map (\<lambda>row. [dot row wv]) rows)"
  using assms by (simp add: np_dot_T_def list_all_iff)

lemma squeeze_column:
  "squeeze (length rows) 1 (map (\<lambda>row. [f row]) rows) =
     (if length rows = 1 then Scalar (f (hd rows)) else Vector (map f rows))"
proof (cases rows)
  case Nil
  then show ?thesis by (simp add: squeeze_def)
next
  case (Cons r rs)
  then show ?thesis by (simp add: squeeze_def comp_def)
qed

lemma forced_after_calculate:
  assumes "calculate ex None None cvo tt fc bal s = Inr s'"
  shows "forced_choice s' = (fc \<or> forced_choice s) \<and>
     (\<exists>s1 s2. create_criterion_values cvo s = Inr s1 \<and>
        forced_choice_transform fc s1 = Inr s2 \<and> input_values s' = input_values s2)"
proof -
  from assms obtain s1 s2 s3 s4 s5 s6 where st:
    "create_criterion_values cvo s = Inr s1"
    "forced_choice_transform fc s1 = Inr s2" "rates s2 = Inr s3"
    "area_under_curve s3 = Inr s4" "get_threshold ex tt s4 = Inr s5"
    "outputs s5 = Inr s6" "accuracy_stats ex bal s6 = Inr s'"
    unfolding calculate_eq_Inr by auto
  have "input_values s' = input_values s2" "forced_choice s' = forced_choice s2"
    using rates_frame [OF st(3)] area_under_curve_frame [OF st(4)]
      get_threshold_frame [OF st(5)] outputs_frame [OF st(6)] accuracy_stats_frame [OF st(7)]
    by simp_all
  moreover have "forced_choice s2 = (fc \<or> forced_choice s)"
    using create_criterion_values_frame [OF st(1)] forced_choice_transform_frame [OF st(2)]
    by simp
  ultimately show ?thesis using st(1,2) by blast
qed

lemma forced_choice_transform_single:
  assumes "fc \<or> forced_choice s" "input_values s = [v]" "binary_outcome s = [True]"
  shows "forced_choice_transform fc s =
     Inr (s\<lparr>forced_choice := True, input_values := [0], class_thr := Some 0\<rparr>)"
  using assms
  by (simp add: forced_choice_transform_def Let_def mask_assign_def bcast2_def mask_index_def)

lemma calculate_example:
  assumes "Roc_init [3, 1] [True, False] (Interned ''optimal_overall'') False = Inr s"
  shows "\<exists>s'. calculate ext0 None None (Some [1, 2, 3]) (Interned ''optimal_overall'') False bal s = Inr s' \<and>
     criterion_values s' = Some [1, 2, 3] \<and>
     tpr s' = Some [1, 1, 1] \<and> fpr s' = Some [1, 0, 0] \<and> auc s' = Some 1 \<and>
     class_thr s' = Some 2 \<and> misclass s' = Some [False, False] \<and>
     sensitivity s' = Some 1 \<and> specificity s' = Some 1 \<and> accuracy s' = Some 1"
proof -
  from Roc_init_eq_Inr [OF assms]
  have f: "input_values s = [3, 1]" "binary_outcome s = [True, False]" "\<not> forced_choice s"
    by simp_all
  show ?thesis
    using f
    by (cases bal)
      (simp_all add: calculate_def set_inputs_def create_criterion_values_def
        forced_choice_transform_def rates_def rates_at_def area_under_curve_def sk_auc_def
        get_threshold_def argmax_def py_index_def outputs_def accuracy_stats_def
        mean_bool_def Let_def ext0_def)
qed

lemma or_stored_simps [simp]: "or_stored None v = v" "or_stored (Some a) v = a"
  by (simp_all add: or_stored_def)

lemma calculate_set_inputs:
  "calculate ex ivo boo cvo tt fc bal s =
     calculate ex None None cvo tt fc bal (set_inputs ivo boo s)"
  by (simp add: calculate_def)

lemma set_inputs_fields:
  "input_values (set_inputs ivo boo s) = or_stored ivo (input_values s)"
  "binary_outcome (set_inputs ivo boo s) = or_stored boo (binary_outcome s)"
  "forced_choice (set_inputs ivo boo s) = forced_choice s"
  by (cases ivo; cases boo; simp add: set_inputs_def)+

lemma Roc_init_set_inputs:
  assumes "Roc_init iv bo tt0 fc0 = Inr s"
    and "length (or_stored ivo iv) = length (or_stored boo bo)"
    and "True \<in> set (or_stored boo bo)"
  shows "Roc_init (or_stored ivo iv) (or_stored boo bo) tt0 fc0 = Inr (set_inputs ivo boo s)"
proof -
  from assms(1) have t: "chars tt0 \<in> set thr_type"
    and s: "s = \<lparr>input_values = iv, binary_outcome = bo, threshold_type = tt0,
        forced_choice = fc0, criterion_values = None, class_thr = None, tpr = None,
        fpr = None, n_true = None, n_false = None, auc = None, false_positive = None,
        false_negative = None, misclass = None, true_positive = None,
        true_negative = None, sensitivity = None, specificity = None, ppv = None,
        accuracy = None, n_obs = None, accuracy_p = None, accuracy_se = None\<rparr>"
    by (auto simp: Roc_init_def split: if_splits)
  have e: "list_ex id (or_stored boo bo)" using assms(3) by (auto simp: list_ex_iff)
  show ?thesis
    unfolding s using t e assms(2)
    by (cases ivo; cases boo) (simp_all add: Roc_init_def set_inputs_def)
qed

lemma criterion_after_calculate:
  assumes "calculate ex None None None tt fc bal s = Inr s'"
  shows "criterion_values s' =
     Some (linspace (Min (set (input_values s))) (Max (set (input_values s)))
             (50 * length (binary_outcome s)))"
proof -
  from assms obtain s1 s2 s3 s4 s5 s6 where st:
    "create_criterion_values None s = Inr s1"
    "forced_choice_transform fc s1 = Inr s2" "rates s2 = Inr s3"
    "area_under_curve s3 = Inr s4" "get_threshold ex tt s4 = Inr s5"
    "outputs s5 = Inr s6" "accuracy_stats ex bal s6 = Inr s'"
    unfolding calculate_eq_Inr by auto
  have ne: "input_values s \<noteq> []"
    using st(1) by (auto simp: create_criterion_values_def py_min_def)
  have "criterion_values s1 =
     Some (linspace (Min (set (input_values s))) (Max (set (input_values s)))
             (50 * length (binary_outcome s)))"
    using st(1) unfolding create_criterion_values_None [OF ne] by auto
  moreover have "criterion_values s' = criterion_values s1"
    using forced_choice_transform_frame [OF st(2)] rates_frame [OF st(3)]
      area_under_curve_frame [OF st(4)] get_threshold_frame [OF st(5)]
      outputs_frame [OF st(6)] accuracy_stats_frame [OF st(7)]
    by simp
  ultimately show ?thesis by simp
qed

lemma hd_linspace: "n \<noteq> 0 \<Longrightarrow> hd (linspace a b n) = a"
  by (cases "n = 1") (simp_all add: linspace_def hd_map)

lemma calculate_forced_twice:
  assumes "input_values s = iv" "binary_outcome s = bo" "forced_choice s = fc0"
    "length iv = length bo" "True \<in> set bo" "fc \<or> fc0"
    "count_true (invert bo) = count_true bo"
  shows "\<exists>s'. calculate ex None None None tt fc bal s = Inr s' \<and>
     input_values s' = forced_scores iv bo \<and> binary_outcome s' = bo \<and> forced_choice s' \<and>
     criterion_values s' = Some (linspace (Min (set iv)) (Max (set iv)) (50 * length bo)) \<and>
     (\<exists>s''. plot_calculate ex s' = Inr s'' \<and>
        input_values s'' = forced_scores (forced_scores iv bo) bo \<and>
        criterion_values s'' =
          Some (linspace (Min (set (forced_scores iv bo))) (Max (set (forced_scores iv bo)))
                  (50 * length bo)))"
proof -
  from calculate_forced_total [OF assms, of ex tt bal]
  obtain s' where c: "calculate ex None None None tt fc bal s = Inr s'"
    "input_values s' = forced_scores iv bo" "class_thr s' = Some 0" "forced_choice s'"
    "binary_outcome s' = bo" by blast
  have k: "criterion_values s' = Some (linspace (Min (set iv)) (Max (set iv)) (50 * length bo))"
    using criterion_after_calculate [OF c(1)] assms(1,2) by simp
  have l: "length (forced_scores iv bo) = length bo" using assms(4) by simp
  have fc': "forced_choice s' = True" using c(4) by simp
  have t: "False \<or> True" by simp
  from calculate_forced_total [OF c(2) c(5) fc' l assms(5) t assms(7),
      of ex "Interned ''optimal_overall''" False]
  obtain s'' where d: "plot_calculate ex s' = Inr s''"
    "input_values s'' = forced_scores (forced_scores iv bo) bo"
    unfolding plot_calculate_def by blast
  have "criterion_values s'' =
          Some (linspace (Min (set (forced_scores iv bo))) (Max (set (forced_scores iv bo)))
                  (50 * length bo))"
    using criterion_after_calculate [OF d(1) [unfolded plot_calculate_def]] c(2,5) by simp
  with c k d show ?thesis by blast
qed
section \<open>The claims\<close>

text \<open>
  C1: for input values and a boolean outcome vector of one length, with at least one
  true and at least one false outcome, \<^verbatim>\<open>Roc.calculate\<close> sets, for each criterion
  value \<open>x\<close>, the true positive rate to the number of entries with a true outcome and
  an input value of at least \<open>x\<close> divided by the number of true entries, and the
  false positive rate to the same over the false entries. The rates are those of the
  values that the object holds when the rates are computed; without forced choice
  these are the values supplied. With the default arguments the call returns.
\<close>

theorem calculate_rates:
  assumes "length iv = length bo" "True \<in> set bo" "False \<in> set bo"
    and "Roc_init iv bo tt0 fc0 = Inr s"
  shows "(\<not> fc0 \<longrightarrow>
           (\<exists>s'. calculate ex None None None (Interned ''optimal_overall'') False bal s = Inr s')) \<and>
         (\<forall>s'. calculate ex None None cvo tt fc bal s = Inr s' \<longrightarrow>
           (\<exists>cv. criterion_values s' = Some cv \<and>
              tpr s' = Some (map (tpr_at (input_values s') bo) cv) \<and>
              fpr s' = Some (map (fpr_at (input_values s') bo) cv)) \<and>
           binary_outcome s' = bo \<and>
           (\<not> fc \<and> \<not> fc0 \<longrightarrow> input_values s' = iv))"
proof (intro conjI impI allI)
  assume "\<not> fc0"
  with assms(4) have "Roc_init iv bo tt0 False = Inr s" by simp
  then show "\<exists>s'. calculate ex None None None (Interned ''optimal_overall'') False bal s = Inr s'"
    using assms(3) by (rule calculate_overall_total)
next
  fix s'
  assume c: "calculate ex None None cvo tt fc bal s = Inr s'"
  from Roc_init_eq_Inr [OF assms(4)]
  have s: "input_values s = iv" "binary_outcome s = bo" "forced_choice s = fc0" by simp_all
  from inputs_after_calculate [OF c] s
  have k: "binary_outcome s' = bo" "\<not> fc \<and> \<not> fc0 \<longrightarrow> input_values s' = iv" by simp_all
  from k(1) show "binary_outcome s' = bo" .
  from rates_after_calculate [OF c] k(1)
  show "\<exists>cv. criterion_values s' = Some cv \<and>
              tpr s' = Some (map (tpr_at (input_values s') bo) cv) \<and>
              fpr s' = Some (map (fpr_at (input_values s') bo) cv)" by simp
  assume "\<not> fc \<and> \<not> fc0"
  with k(2) show "input_values s' = iv" by simp
qed

theorem calculate_rates_witness:
  "\<exists>s. Roc_init [3, 1] [True, False] (Interned ''optimal_overall'') False = Inr s \<and>
     (\<exists>s' cv. calculate ext0 None None None (Interned ''optimal_overall'') False False s = Inr s' \<and>
        criterion_values s' = Some cv \<and> input_values s' = [3, 1] \<and>
        tpr s' = Some (map (tpr_at [3, 1] [True, False]) cv) \<and>
        fpr s' = Some (map (fpr_at [3, 1] [True, False]) cv)) \<and>
     (\<exists>s'. calculate ext0 None None (Some [1, 2, 3]) (Interned ''optimal_overall'') False False s = Inr s' \<and>
        tpr s' = Some [1, 1, 1] \<and> fpr s' = Some [1, 0, 0])"
proof -
  obtain s where s: "Roc_init [3, 1] [True, False] (Interned ''optimal_overall'') False = Inr s"
    by (simp add: Roc_init_def thr_type_def)
  have h: "length [3, 1 :: real] = length [True, False]" "True \<in> set [True, False]"
    "False \<in> set [True, False]" by simp_all
  note t = calculate_rates [OF h s, of ext0 False None "Interned ''optimal_overall''" False]
  from t obtain s1 where
    c1: "calculate ext0 None None None (Interned ''optimal_overall'') False False s = Inr s1"
    by blast
  with t have r1: "\<exists>cv. criterion_values s1 = Some cv \<and> input_values s1 = [3, 1] \<and>
        tpr s1 = Some (map (tpr_at [3, 1] [True, False]) cv) \<and>
        fpr s1 = Some (map (fpr_at [3, 1] [True, False]) cv)" by auto
  from calculate_example [OF s, of False] obtain s2 where
    c2: "calculate ext0 None None (Some [1, 2, 3]) (Interned ''optimal_overall'') False False s = Inr s2"
    "criterion_values s2 = Some [1, 2, 3]" by blast
  from calculate_rates [OF h s, of ext0 False "Some [1, 2, 3]" "Interned ''optimal_overall''" False]
    c2
  have r2: "tpr s2 = Some (map (tpr_at [3, 1] [True, False]) [1, 2, 3])"
    "fpr s2 = Some (map (fpr_at [3, 1] [True, False]) [1, 2, 3])" by auto
  have e: "map (tpr_at [3, 1] [True, False]) [1, 2, 3] = [1, 1, 1]"
    "map (fpr_at [3, 1] [True, False]) [1, 2, 3] = [1, 0, 0]"
    by (simp_all add: tpr_at_def fpr_at_def n_entries_def)
  have r3: "tpr s2 = Some [1, 1, 1]" "fpr s2 = Some [1, 0, 0]"
    by (simp_all only: r2 e)
  have a: "\<exists>s' cv. calculate ext0 None None None (Interned ''optimal_overall'') False False s = Inr s' \<and>
        criterion_values s' = Some cv \<and> input_values s' = [3, 1] \<and>
        tpr s' = Some (map (tpr_at [3, 1] [True, False]) cv) \<and>
        fpr s' = Some (map (fpr_at [3, 1] [True, False]) cv)"
    using c1 r1 by blast
  have b: "\<exists>s'. calculate ext0 None None (Some [1, 2, 3]) (Interned ''optimal_overall'') False False s = Inr s' \<and>
        tpr s' = Some [1, 1, 1] \<and> fpr s' = Some [1, 0, 0]"
    using c2(1) r3 by blast
  from s a b show ?thesis by blast
qed

text \<open>
  C2: for a valid input and the default criterion values, an ascending
  \<^verbatim>\<open>linspace\<close> from the least to the greatest input value, \<^verbatim>\<open>Roc.calculate\<close> sets
  \<^verbatim>\<open>self.auc\<close> to the area, by the trapezoidal rule, under the curve through the
  computed pairs of false and true positive rate. The same holds for any ascending
  criterion values given to the call. The false positive rates do not increase along
  ascending criterion values, so the library function does not raise on them. With the
  default arguments the call returns.
\<close>

theorem calculate_auc:
  assumes "length iv = length bo" "True \<in> set bo" "False \<in> set bo"
    and "Roc_init iv bo tt0 fc0 = Inr s"
  shows "(\<not> fc0 \<longrightarrow>
        (\<exists>s'. calculate ex None None None (Interned ''optimal_overall'') False bal s = Inr s')) \<and>
     (\<forall>s' cvo. (cvo = None \<or> (\<exists>cv. cvo = Some cv \<and> sorted cv)) \<longrightarrow>
        calculate ex None None cvo tt fc bal s = Inr s' \<longrightarrow>
        (\<exists>fs ts. fpr s' = Some fs \<and> tpr s' = Some ts \<and> length fs = length ts \<and>
           auc s' = Some (trapezoid_area (zip fs ts))))"
proof (intro conjI allI impI)
  assume "\<not> fc0"
  with assms(4) have "Roc_init iv bo tt0 False = Inr s" by simp
  then show "\<exists>s'. calculate ex None None None (Interned ''optimal_overall'') False bal s = Inr s'"
    using assms(3) by (rule calculate_overall_total)
next
  fix s' cvo
  assume "cvo = None \<or> (\<exists>cv. cvo = Some cv \<and> sorted cv)"
    and "calculate ex None None cvo tt fc bal s = Inr s'"
  from this(2,1)
  show "\<exists>fs ts. fpr s' = Some fs \<and> tpr s' = Some ts \<and> length fs = length ts \<and>
           auc s' = Some (trapezoid_area (zip fs ts))"
    by (rule auc_after_calculate)
qed

theorem calculate_auc_witness:
  "\<exists>s. Roc_init [3, 1] [True, False] (Interned ''optimal_overall'') False = Inr s \<and>
     (\<exists>s' fs ts. calculate ext0 None None None (Interned ''optimal_overall'') False False s = Inr s' \<and>
        fpr s' = Some fs \<and> tpr s' = Some ts \<and> auc s' = Some (trapezoid_area (zip fs ts))) \<and>
     (\<exists>s'. calculate ext0 None None (Some [1, 2, 3]) (Interned ''optimal_overall'') False False s = Inr s' \<and>
        fpr s' = Some [1, 0, 0] \<and> tpr s' = Some [1, 1, 1] \<and>
        auc s' = Some (trapezoid_area (zip [1, 0, 0] [1, 1, 1])) \<and>
        trapezoid_area (zip [1, 0, 0] [1, 1, 1]) = 1)"
proof -
  obtain s where s: "Roc_init [3, 1] [True, False] (Interned ''optimal_overall'') False = Inr s"
    by (simp add: Roc_init_def thr_type_def)
  have h: "length [3, 1 :: real] = length [True, False]" "True \<in> set [True, False]"
    "False \<in> set [True, False]" by simp_all
  note t = calculate_auc [OF h s, of ext0 False "Interned ''optimal_overall''" False]
  from t obtain s1 where
    c1: "calculate ext0 None None None (Interned ''optimal_overall'') False False s = Inr s1"
    by blast
  with t have a: "\<exists>s' fs ts. calculate ext0 None None None (Interned ''optimal_overall'') False False s = Inr s' \<and>
        fpr s' = Some fs \<and> tpr s' = Some ts \<and> auc s' = Some (trapezoid_area (zip fs ts))"
    by blast
  from calculate_example [OF s, of False] obtain s2 where
    c2: "calculate ext0 None None (Some [1, 2, 3]) (Interned ''optimal_overall'') False False s = Inr s2"
    "fpr s2 = Some [1, 0, 0]" "tpr s2 = Some [1, 1, 1]" by blast
  have srt: "Some [1, 2, 3 :: real] = None \<or> (\<exists>cv. Some [1, 2, 3 :: real] = Some cv \<and> sorted cv)"
    by simp
  from t [THEN conjunct2, rule_format, OF srt c2(1)] c2(2,3)
  have r2: "auc s2 = Some (trapezoid_area (zip [1, 0, 0] [1, 1, 1]))" by auto
  have e: "trapezoid_area (zip [1, 0, 0] [1, 1, 1]) = 1" by simp
  have b: "\<exists>s'. calculate ext0 None None (Some [1, 2, 3]) (Interned ''optimal_overall'') False False s = Inr s' \<and>
        fpr s' = Some [1, 0, 0] \<and> tpr s' = Some [1, 1, 1] \<and>
        auc s' = Some (trapezoid_area (zip [1, 0, 0] [1, 1, 1])) \<and>
        trapezoid_area (zip [1, 0, 0] [1, 1, 1]) = 1"
    using c2 r2 e by blast
  from s a b show ?thesis by blast
qed

text \<open>
  C3: for a valid input without forced choice and with the threshold type
  \<^verbatim>\<open>'optimal_overall'\<close>, \<^verbatim>\<open>Roc.calculate\<close> sets \<^verbatim>\<open>self.class_thr\<close> to a
  criterion value that maximises, over all criterion values, the number of correct
  classifications: the true positive rate times the number of true outcomes plus one
  minus the false positive rate times the number of false outcomes. That number is the
  number of entries whose outcome agrees with the comparison against the criterion
  value. With the default criterion values the call returns.
\<close>

theorem calculate_optimal_overall:
  assumes "length iv = length bo" "True \<in> set bo" "False \<in> set bo"
    and "Roc_init iv bo tt0 False = Inr s"
  shows "(\<exists>s'. calculate ex None None None (Interned ''optimal_overall'') False bal s = Inr s') \<and>
     (\<forall>s'. calculate ex None None cvo (Interned ''optimal_overall'') False bal s = Inr s' \<longrightarrow>
        (\<exists>cv i. criterion_values s' = Some cv \<and> i < length cv \<and>
           class_thr s' = Some (cv ! i) \<and>
           (\<forall>j<length cv. n_correct iv bo (cv ! j) \<le> n_correct iv bo (cv ! i)))) \<and>
     (\<forall>x. n_correct iv bo x = real (n_entries (\<lambda>v b. (x \<le> v) = b) iv bo))"
proof (intro conjI allI impI)
  show "\<exists>s'. calculate ex None None None (Interned ''optimal_overall'') False bal s = Inr s'"
    using assms(4,3) by (rule calculate_overall_total)
next
  fix s'
  assume c: "calculate ex None None cvo (Interned ''optimal_overall'') False bal s = Inr s'"
  from Roc_init_eq_Inr [OF assms(4)]
  have s: "input_values s = iv" "binary_outcome s = bo" "\<not> forced_choice s" by simp_all
  from calculate_overall_threshold [OF c s(3)] s(1,2)
  show "\<exists>cv i. criterion_values s' = Some cv \<and> i < length cv \<and>
           class_thr s' = Some (cv ! i) \<and>
           (\<forall>j<length cv. n_correct iv bo (cv ! j) \<le> n_correct iv bo (cv ! i))"
    by simp
next
  fix x
  show "n_correct iv bo x = real (n_entries (\<lambda>v b. (x \<le> v) = b) iv bo)"
    using assms(1-3) by (rule n_correct_count)
qed

theorem calculate_optimal_overall_witness:
  "\<exists>s. Roc_init [3, 1] [True, False] (Interned ''optimal_overall'') False = Inr s \<and>
     (\<exists>s'. calculate ext0 None None None (Interned ''optimal_overall'') False False s = Inr s') \<and>
     (\<exists>s'. calculate ext0 None None (Some [1, 2, 3]) (Interned ''optimal_overall'') False False s = Inr s' \<and>
        class_thr s' = Some 2 \<and>
        n_correct [3, 1] [True, False] 1 \<le> n_correct [3, 1] [True, False] 2 \<and>
        n_correct [3, 1] [True, False] 3 \<le> n_correct [3, 1] [True, False] 2 \<and>
        n_correct [3, 1] [True, False] 2 = 2)"
proof -
  obtain s where s: "Roc_init [3, 1] [True, False] (Interned ''optimal_overall'') False = Inr s"
    by (simp add: Roc_init_def thr_type_def)
  have h: "length [3, 1 :: real] = length [True, False]" "True \<in> set [True, False]"
    "False \<in> set [True, False]" by simp_all
  note t = calculate_optimal_overall [OF h s, of ext0 False "Some [1, 2, 3]"]
  from t have c1: "\<exists>s'. calculate ext0 None None None (Interned ''optimal_overall'') False False s = Inr s'"
    by blast
  from calculate_example [OF s, of False] obtain s2 where
    c2: "calculate ext0 None None (Some [1, 2, 3]) (Interned ''optimal_overall'') False False s = Inr s2"
    "criterion_values s2 = Some [1, 2, 3]" "class_thr s2 = Some 2" by blast
  from t c2 obtain i where i: "i < length [1, 2, 3 :: real]" "[1, 2, 3 :: real] ! i = 2"
    "\<forall>j<length [1, 2, 3 :: real]. n_correct [3, 1] [True, False] ([1, 2, 3] ! j)
        \<le> n_correct [3, 1] [True, False] ([1, 2, 3] ! i)"
    by fastforce
  from i(3) [rule_format, of 0] i(3) [rule_format, of 2]
  have "n_correct [3, 1] [True, False] ([1, 2, 3] ! 0) \<le> n_correct [3, 1] [True, False] ([1, 2, 3] ! i)"
    "n_correct [3, 1] [True, False] ([1, 2, 3] ! 2) \<le> n_correct [3, 1] [True, False] ([1, 2, 3] ! i)"
    by simp_all
  with i(2) have m: "n_correct [3, 1] [True, False] 1 \<le> n_correct [3, 1] [True, False] 2"
    "n_correct [3, 1] [True, False] 3 \<le> n_correct [3, 1] [True, False] 2"
    by simp_all
  from t have "n_correct [3, 1] [True, False] 2 =
      real (n_entries (\<lambda>v b. (2 \<le> v) = b) [3, 1] [True, False])" by blast
  then have v: "n_correct [3, 1] [True, False] 2 = 2" by (simp add: n_entries_def)
  have b: "\<exists>s'. calculate ext0 None None (Some [1, 2, 3]) (Interned ''optimal_overall'') False False s = Inr s' \<and>
        class_thr s' = Some 2 \<and>
        n_correct [3, 1] [True, False] 1 \<le> n_correct [3, 1] [True, False] 2 \<and>
        n_correct [3, 1] [True, False] 3 \<le> n_correct [3, 1] [True, False] 2 \<and>
        n_correct [3, 1] [True, False] 2 = 2"
    using c2(1,3) m v by blast
  from s c1 b show ?thesis by blast
qed

text \<open>
  C4: what the source does for the threshold type \<^verbatim>\<open>'optimal_balanced'\<close>. For a
  valid input without forced choice the call never returns: with the default criterion
  values it ends with NameError, raised by line 481, which reads the names \<^verbatim>\<open>tpr\<close> and
  \<^verbatim>\<open>fpr\<close> instead of the attributes \<^verbatim>\<open>self.tpr\<close> and \<^verbatim>\<open>self.fpr\<close>. No
  threshold is set.
\<close>

theorem calculate_optimal_balanced_raises:
  assumes "length iv = length bo" "True \<in> set bo" "False \<in> set bo"
    and "Roc_init iv bo tt0 False = Inr s"
  shows "calculate ex None None None (Interned ''optimal_balanced'') False bal s = Inl NameError \<and>
     (\<forall>cvo s'. calculate ex None None cvo (Interned ''optimal_balanced'') False bal s \<noteq> Inr s')"
proof
  from calculate_until_threshold [OF assms(4,3), of ex "Interned ''optimal_balanced''" bal]
  obtain s4 where s4: "\<not> forced_choice s4"
    "calculate ex None None None (Interned ''optimal_balanced'') False bal s =
       bind (get_threshold ex (Interned ''optimal_balanced'') s4)
         (\<lambda>s5. bind (outputs s5) (\<lambda>s6. accuracy_stats ex bal s6))" by blast
  from s4(1) have "get_threshold ex (Interned ''optimal_balanced'') s4 = Inl NameError"
    by (rule get_threshold_balanced)
  with s4(2) show "calculate ex None None None (Interned ''optimal_balanced'') False bal s = Inl NameError"
    by simp
  from Roc_init_eq_Inr [OF assms(4)] have "\<not> forced_choice s" by simp
  then show "\<forall>cvo s'. calculate ex None None cvo (Interned ''optimal_balanced'') False bal s \<noteq> Inr s'"
    using calculate_balanced_never_returns by blast
qed

theorem calculate_optimal_balanced_raises_witness:
  "\<exists>s. Roc_init [3, 1] [True, False] (Interned ''optimal_balanced'') False = Inr s \<and>
     calculate ext0 None None None (Interned ''optimal_balanced'') False False s = Inl NameError"
proof -
  obtain s where s: "Roc_init [3, 1] [True, False] (Interned ''optimal_balanced'') False = Inr s"
    by (simp add: Roc_init_def thr_type_def)
  have h: "length [3, 1 :: real] = length [True, False]" "True \<in> set [True, False]"
    "False \<in> set [True, False]" by simp_all
  from calculate_optimal_balanced_raises [OF h s, of ext0 False] s show ?thesis by blast
qed

text \<open>
  C5: what the forced-choice statements of the source compute. For \<open>n\<close> true-outcome
  scores \<open>ts\<close> stacked on \<open>n\<close> false-outcome scores \<open>fs\<close>, the call returns with
  the threshold 0 and with the true-outcome scores replaced by zero and each
  false-outcome score replaced by its difference to the true-outcome score of its pair.
  A pair is not centred at zero: from the scores 3 and 1 the source makes 0 and -2,
  where subtracting the mean of the pair would give 1 and -1.
\<close>

theorem forced_choice_scores:
  assumes "length ts = length fs" "ts \<noteq> []"
    and "Roc_init (ts @ fs) (replicate (length ts) True @ replicate (length fs) False) tt0 fc0 = Inr s"
    and "fc \<or> fc0"
  shows "\<exists>s'. calculate ex None None None tt fc bal s = Inr s' \<and>
     input_values s' = replicate (length ts) 0 @ map2 (-) fs ts \<and> class_thr s' = Some 0"
proof -
  let ?bo = "replicate (length ts) True @ replicate (length fs) False"
  from Roc_init_eq_Inr [OF assms(3)]
  have s: "input_values s = ts @ fs" "binary_outcome s = ?bo" "forced_choice s = fc0"
    "length (ts @ fs) = length ?bo" "True \<in> set ?bo" by simp_all
  have p: "count_true (invert ?bo) = count_true ?bo"
    unfolding invert_stacked count_true_stacked using assms(1) by simp
  from calculate_forced_total [OF s assms(4) p, of ex tt bal]
  show ?thesis
    unfolding forced_scores_stacked [OF assms(1)] by blast
qed

theorem forced_choice_scores_witness:
  "\<exists>s s'. Roc_init [3, 1] [True, False] (Interned ''optimal_overall'') True = Inr s \<and>
     calculate ext0 None None None (Interned ''optimal_overall'') False False s = Inr s' \<and>
     input_values s' = [0, - 2] \<and> class_thr s' = Some 0"
proof -
  obtain s where s: "Roc_init [3, 1] [True, False] (Interned ''optimal_overall'') True = Inr s"
    by (simp add: Roc_init_def thr_type_def)
  have h: "length [3 :: real] = length [1 :: real]" "[3 :: real] \<noteq> []" by simp_all
  have i: "Roc_init ([3] @ [1]) (replicate (length [3 :: real]) True @
      replicate (length [1 :: real]) False) (Interned ''optimal_overall'') True = Inr s"
    using s by simp
  from forced_choice_scores [OF h i, of False ext0 "Interned ''optimal_overall''" False]
  obtain s' where
    "calculate ext0 None None None (Interned ''optimal_overall'') False False s = Inr s'"
    "input_values s' = replicate (length [3 :: real]) 0 @ map2 (-) [1] [3]"
    "class_thr s' = Some 0" by auto
  then have "calculate ext0 None None None (Interned ''optimal_overall'') False False s = Inr s' \<and>
     input_values s' = [0, - 2] \<and> class_thr s' = Some 0" by simp
  with s show ?thesis by blast
qed

text \<open>
  C6: with \<^verbatim>\<open>balanced_acc\<close> true, \<^verbatim>\<open>Roc.calculate\<close> sets \<^verbatim>\<open>self.accuracy\<close>
  to the arithmetic mean of \<^verbatim>\<open>self.sensitivity\<close> and \<^verbatim>\<open>self.specificity\<close>; with
  \<^verbatim>\<open>balanced_acc\<close> false, to one minus the mean of the misclassification indicator,
  which is the share of observations whose indicator is false. Without forced choice
  the indicator stored in \<^verbatim>\<open>self.misclass\<close> is the one of the threshold
  \<^verbatim>\<open>self.class_thr\<close> over the supplied vectors. With the default arguments the call
  returns.
\<close>

theorem calculate_accuracy:
  assumes "length iv = length bo" "True \<in> set bo" "False \<in> set bo"
    and "Roc_init iv bo tt0 fc0 = Inr s"
  shows "(\<not> fc0 \<longrightarrow>
        (\<exists>s'. calculate ex None None None (Interned ''optimal_overall'') False bal s = Inr s')) \<and>
     (\<forall>s'. calculate ex None None cvo tt fc bal s = Inr s' \<longrightarrow>
        (\<exists>mis sens spec. misclass s' = Some mis \<and> sensitivity s' = Some sens \<and>
           specificity s' = Some spec \<and>
           (bal \<longrightarrow> accuracy s' = Some ((sens + spec) / 2)) \<and>
           (\<not> bal \<longrightarrow> accuracy s' = Some (1 - mean_bool mis) \<and>
              1 - mean_bool mis = real (count_true (invert mis)) / real (length mis)) \<and>
           (\<not> fc \<and> \<not> fc0 \<longrightarrow>
              (\<exists>thr. class_thr s' = Some thr \<and> mis = misclassified thr iv bo))))"
proof (intro conjI allI impI)
  assume "\<not> fc0"
  with assms(4) have "Roc_init iv bo tt0 False = Inr s" by simp
  then show "\<exists>s'. calculate ex None None None (Interned ''optimal_overall'') False bal s = Inr s'"
    using assms(3) by (rule calculate_overall_total)
next
  fix s'
  assume c: "calculate ex None None cvo tt fc bal s = Inr s'"
  from Roc_init_eq_Inr [OF assms(4)]
  have s: "input_values s = iv" "binary_outcome s = bo" "forced_choice s = fc0" by simp_all
  from accuracy_after_calculate [OF c] obtain mis sens spec where a:
    "misclass s' = Some mis" "mis \<noteq> []" "sensitivity s' = Some sens"
    "specificity s' = Some spec"
    "accuracy s' = Some (if bal then (sens + spec) / 2 else 1 - mean_bool mis)" by blast
  have nf: "\<not> fc \<and> \<not> fc0 \<longrightarrow> (\<exists>thr. class_thr s' = Some thr \<and> mis = misclassified thr iv bo)"
  proof
    assume n: "\<not> fc \<and> \<not> fc0"
    with c have c': "calculate ex None None cvo tt False bal s = Inr s'" by simp
    from n s(3) have "\<not> forced_choice s" by simp
    from calculate_misclass_not_forced [OF c' this] a(1) s(1,2)
    show "\<exists>thr. class_thr s' = Some thr \<and> mis = misclassified thr iv bo" by auto
  qed
  from a nf mean_bool_invert [OF a(2)]
  show "\<exists>mis sens spec. misclass s' = Some mis \<and> sensitivity s' = Some sens \<and>
           specificity s' = Some spec \<and>
           (bal \<longrightarrow> accuracy s' = Some ((sens + spec) / 2)) \<and>
           (\<not> bal \<longrightarrow> accuracy s' = Some (1 - mean_bool mis) \<and>
              1 - mean_bool mis = real (count_true (invert mis)) / real (length mis)) \<and>
           (\<not> fc \<and> \<not> fc0 \<longrightarrow>
              (\<exists>thr. class_thr s' = Some thr \<and> mis = misclassified thr iv bo))"
    by auto
qed

theorem calculate_accuracy_witness:
  "\<exists>s. Roc_init [3, 1] [True, False] (Interned ''optimal_overall'') False = Inr s \<and>
     (\<exists>s' mis thr. calculate ext0 None None None (Interned ''optimal_overall'') False False s = Inr s' \<and>
        misclass s' = Some mis \<and> class_thr s' = Some thr \<and>
        mis = misclassified thr [3, 1] [True, False] \<and>
        accuracy s' = Some (1 - mean_bool mis)) \<and>
     (\<exists>s' sens spec. calculate ext0 None None None (Interned ''optimal_overall'') False True s = Inr s' \<and>
        sensitivity s' = Some sens \<and> specificity s' = Some spec \<and>
        accuracy s' = Some ((sens + spec) / 2)) \<and>
     (\<exists>s'. calculate ext0 None None (Some [1, 2, 3]) (Interned ''optimal_overall'') False False s = Inr s' \<and>
        misclass s' = Some [False, False] \<and> accuracy s' = Some (1 - mean_bool [False, False]) \<and>
        1 - mean_bool [False, False] = 1) \<and>
     (\<exists>s'. calculate ext0 None None (Some [1, 2, 3]) (Interned ''optimal_overall'') False True s = Inr s' \<and>
        sensitivity s' = Some 1 \<and> specificity s' = Some 1 \<and> accuracy s' = Some ((1 + 1) / 2))"
proof -
  obtain s where s: "Roc_init [3, 1] [True, False] (Interned ''optimal_overall'') False = Inr s"
    by (simp add: Roc_init_def thr_type_def)
  have h: "length [3, 1 :: real] = length [True, False]" "True \<in> set [True, False]"
    "False \<in> set [True, False]" by simp_all
  note f = calculate_accuracy [OF h s, of ext0 False None "Interned ''optimal_overall''" False]
  note t = calculate_accuracy [OF h s, of ext0 True None "Interned ''optimal_overall''" False]
  from f obtain s1 where
    c1: "calculate ext0 None None None (Interned ''optimal_overall'') False False s = Inr s1"
    by blast
  with f have r1: "\<exists>mis thr. misclass s1 = Some mis \<and> class_thr s1 = Some thr \<and>
        mis = misclassified thr [3, 1] [True, False] \<and> accuracy s1 = Some (1 - mean_bool mis)"
    by blast
  from t obtain s2 where
    c2: "calculate ext0 None None None (Interned ''optimal_overall'') False True s = Inr s2"
    by blast
  with t have r2: "\<exists>sens spec. sensitivity s2 = Some sens \<and> specificity s2 = Some spec \<and>
        accuracy s2 = Some ((sens + spec) / 2)"
    by blast
  from calculate_example [OF s, of False] obtain s3 where
    c3: "calculate ext0 None None (Some [1, 2, 3]) (Interned ''optimal_overall'') False False s = Inr s3"
    "misclass s3 = Some [False, False]" by blast
  from calculate_accuracy [OF h s, of ext0 False "Some [1, 2, 3]" "Interned ''optimal_overall''" False]
    c3
  have r3: "accuracy s3 = Some (1 - mean_bool [False, False])" by auto
  have e3: "1 - mean_bool [False, False] = 1" by (simp add: mean_bool_def)
  from calculate_example [OF s, of True] obtain s4 where
    c4: "calculate ext0 None None (Some [1, 2, 3]) (Interned ''optimal_overall'') False True s = Inr s4"
    "sensitivity s4 = Some 1" "specificity s4 = Some 1" by blast
  from calculate_accuracy [OF h s, of ext0 True "Some [1, 2, 3]" "Interned ''optimal_overall''" False]
    c4
  have r4: "accuracy s4 = Some ((1 + 1) / 2)" by auto
  have a: "\<exists>s' mis thr. calculate ext0 None None None (Interned ''optimal_overall'') False False s = Inr s' \<and>
        misclass s' = Some mis \<and> class_thr s' = Some thr \<and>
        mis = misclassified thr [3, 1] [True, False] \<and>
        accuracy s' = Some (1 - mean_bool mis)"
    using c1 r1 by blast
  have b: "\<exists>s' sens spec. calculate ext0 None None None (Interned ''optimal_overall'') False True s = Inr s' \<and>
        sensitivity s' = Some sens \<and> specificity s' = Some spec \<and>
        accuracy s' = Some ((sens + spec) / 2)"
    using c2 r2 by blast
  have c: "\<exists>s'. calculate ext0 None None (Some [1, 2, 3]) (Interned ''optimal_overall'') False False s = Inr s' \<and>
        misclass s' = Some [False, False] \<and> accuracy s' = Some (1 - mean_bool [False, False]) \<and>
        1 - mean_bool [False, False] = 1"
    using c3 r3 e3 by blast
  have d: "\<exists>s'. calculate ext0 None None (Some [1, 2, 3]) (Interned ''optimal_overall'') False True s = Inr s' \<and>
        sensitivity s' = Some 1 \<and> specificity s' = Some 1 \<and> accuracy s' = Some ((1 + 1) / 2)"
    using c4 r4 by blast
  from s a b c d show ?thesis by blast
qed

text \<open>
  C7: for a data image set and a weight map of one image, flattened by one masker into
  rows of one length, \<^verbatim>\<open>apply_mask\<close> with the method \<^verbatim>\<open>'dot_product'\<close> computes,
  for each image, the dot product of its row with the row of the weight map: a vector,
  and for one image a number without axes. Without \<^verbatim>\<open>save_output\<close> the call returns
  it, and with \<^verbatim>\<open>save_output\<close> and another number of images than one it returns it
  and writes the file. With \<^verbatim>\<open>save_output\<close> and one image the call does not return:
  \<^verbatim>\<open>np.savetxt\<close> raises ValueError for the number without axes. With the method
  \<^verbatim>\<open>'correlation'\<close> the call returns the array that \<^verbatim>\<open>pearson\<close> returns for the
  flattened data and the flattened weight map, in this order; with \<^verbatim>\<open>save_output\<close>,
  when that array has an axis.
\<close>

theorem apply_mask_pattern_expression:
  assumes "data = Nifti d" "weight_map = Nifti w" "mask_img \<noteq> Other"
    and "fit_transform env (chosen_mask env mask_img) d = rows"
    and "fit_transform env (chosen_mask env mask_img) w = [wv]"
    and "\<forall>row\<in>set rows. length row = length wv"
  shows "apply_mask env data weight_map mask_img (Interned ''dot_product'') False output_dir =
       Inr (if length rows = 1 then Scalar (dot (hd rows) wv)
            else Vector (map (\<lambda>row. dot row wv) rows), None) \<and>
     (length rows \<noteq> 1 \<longrightarrow>
        apply_mask env data weight_map mask_img (Interned ''dot_product'') True output_dir =
          Inr (Vector (map (\<lambda>row. dot row wv) rows),
               Some (output_dir, ''Pattern_Expression_dot_product.csv''))) \<and>
     (length rows = 1 \<longrightarrow>
        apply_mask env data weight_map mask_img (Interned ''dot_product'') True output_dir =
          Inl ValueError) \<and>
     apply_mask env data weight_map mask_img (Interned ''correlation'') False output_dir =
       Inr (pearson env rows [wv], None) \<and>
     ((\<forall>x. pearson env rows [wv] \<noteq> Scalar x) \<longrightarrow>
        apply_mask env data weight_map mask_img (Interned ''correlation'') True output_dir =
          Inr (pearson env rows [wv], Some (output_dir, ''Pattern_Expression_correlation.csv'')))"
proof (intro conjI impI)
  have d: "np_dot_T rows [wv] = Inr (map (\<lambda>row. [dot row wv]) rows)"
    using assms(6) by (rule np_dot_T_rows)
  note sq = squeeze_column [of rows "\<lambda>row. dot row wv"]
  show "apply_mask env data weight_map mask_img (Interned ''dot_product'') False output_dir =
       Inr (if length rows = 1 then Scalar (dot (hd rows) wv)
            else Vector (map (\<lambda>row. dot row wv) rows), None)"
    unfolding apply_mask_masked [OF assms(1-3)] assms(4,5)
    using sq by (simp add: d)
  show "apply_mask env data weight_map mask_img (Interned ''dot_product'') True output_dir =
          Inr (Vector (map (\<lambda>row. dot row wv) rows),
               Some (output_dir, ''Pattern_Expression_dot_product.csv''))"
    if "length rows \<noteq> 1"
    unfolding apply_mask_masked [OF assms(1-3)] assms(4,5)
    using sq that by (simp add: d np_savetxt_Vector)
  show "apply_mask env data weight_map mask_img (Interned ''dot_product'') True output_dir =
          Inl ValueError"
    if "length rows = 1"
    unfolding apply_mask_masked [OF assms(1-3)] assms(4,5)
    using sq that by (simp add: d np_savetxt_Scalar)
  show "apply_mask env data weight_map mask_img (Interned ''correlation'') False output_dir =
       Inr (pearson env rows [wv], None)"
    unfolding apply_mask_masked [OF assms(1-3)] assms(4,5) by simp
  show "apply_mask env data weight_map mask_img (Interned ''correlation'') True output_dir =
          Inr (pearson env rows [wv], Some (output_dir, ''Pattern_Expression_correlation.csv''))"
    if "\<forall>x. pearson env rows [wv] \<noteq> Scalar x"
    unfolding apply_mask_masked [OF assms(1-3)] assms(4,5)
    using np_savetxt_not_Scalar [OF that] by simp
qed

theorem apply_mask_pattern_expression_witness:
  "apply_mask env0 (Nifti 0) (Nifti 0) PyNone (Interned ''dot_product'') True ''.'' =
     Inl ValueError \<and>
   apply_mask env0 (Nifti 0) (Nifti 0) PyNone (Interned ''dot_product'') False ''.'' =
     Inr (Scalar 5, None) \<and>
   apply_mask env0 (Nifti 1) (Nifti 0) PyNone (Interned ''dot_product'') False ''.'' =
     Inr (Vector [7, 16], None) \<and>
   apply_mask env0 (Nifti 1) (Nifti 0) PyNone (Interned ''dot_product'') True ''.'' =
     Inr (Vector [7, 16], Some (''.'', ''Pattern_Expression_dot_product.csv'')) \<and>
   apply_mask env0 (Nifti 1) (Nifti 0) PyNone (Interned ''correlation'') True ''.'' =
     Inr (pearson env0 [[1, 2, 3], [4, 5, 6]] [[1, 0, 2]],
          Some (''.'', ''Pattern_Expression_correlation.csv''))"
proof -
  have h: "(Nifti (1::nat)) = Nifti 1" "(Nifti (0::nat)) = Nifti 0" "(PyNone :: nat py_obj) \<noteq> Other"
    "fit_transform env0 (chosen_mask env0 PyNone) 1 = [[1, 2, 3], [4, 5, 6]]"
    "fit_transform env0 (chosen_mask env0 PyNone) 0 = [[1, 0, 2]]"
    "\<forall>row\<in>set [[1, 2, 3], [4, 5, 6 :: real]]. length row = length [1, 0, 2 :: real]"
    by (simp_all add: env0_def)
  have k: "(Nifti (0::nat)) = Nifti 0" "(Nifti (0::nat)) = Nifti 0" "(PyNone :: nat py_obj) \<noteq> Other"
    "fit_transform env0 (chosen_mask env0 PyNone) 0 = [[1, 0, 2]]"
    "fit_transform env0 (chosen_mask env0 PyNone) 0 = [[1, 0, 2]]"
    "\<forall>row\<in>set [[1, 0, 2 :: real]]. length row = length [1, 0, 2 :: real]"
    by (simp_all add: env0_def)
  have v: "\<forall>x. pearson env0 [[1, 2, 3], [4, 5, 6]] [[1, 0, 2]] \<noteq> Scalar x"
    by (simp add: env0_def)
  from apply_mask_pattern_expression [OF k, of "''.''"]
  have a: "apply_mask env0 (Nifti 0) (Nifti 0) PyNone (Interned ''dot_product'') True ''.'' =
       Inl ValueError"
    "apply_mask env0 (Nifti 0) (Nifti 0) PyNone (Interned ''dot_product'') False ''.'' =
       Inr (Scalar 5, None)"
    by (simp_all add: dot_def)
  from apply_mask_pattern_expression [OF h, of "''.''"] v
  have b: "apply_mask env0 (Nifti 1) (Nifti 0) PyNone (Interned ''dot_product'') False ''.'' =
       Inr (Vector [7, 16], None)"
    "apply_mask env0 (Nifti 1) (Nifti 0) PyNone (Interned ''dot_product'') True ''.'' =
       Inr (Vector [7, 16], Some (''.'', ''Pattern_Expression_dot_product.csv''))"
    "apply_mask env0 (Nifti 1) (Nifti 0) PyNone (Interned ''correlation'') True ''.'' =
       Inr (pearson env0 [[1, 2, 3], [4, 5, 6]] [[1, 0, 2]],
            Some (''.'', ''Pattern_Expression_correlation.csv''))"
    by (simp_all add: dot_def)
  from a b show ?thesis by simp
qed

text \<open>
  C8, as amended: \<^verbatim>\<open>Roc.__init__\<close> accepts a non-empty outcome vector whose elements are
  all true, and for every such input, unless forced choice is on and there are two or
  more observations, \<^verbatim>\<open>Roc.calculate\<close> with the default criterion values, or with any
  non-empty criterion values, ends with ZeroDivisionError: the division by the number of
  false outcomes in line 462.
\<close>

theorem all_true_zero_division:
  assumes "length iv = length bo" "bo \<noteq> []" "\<forall>b\<in>set bo. b" "chars tt0 \<in> set thr_type"
    and "\<not> (fc \<or> fc0) \<or> length bo = 1"
  shows "\<exists>s. Roc_init iv bo tt0 fc0 = Inr s \<and>
     calculate ex None None None tt fc bal s = Inl ZeroDivisionError \<and>
     (\<forall>x cv. calculate ex None None (Some (x # cv)) tt fc bal s = Inl ZeroDivisionError)"
proof -
  have any: "list_ex id bo" using assms(2,3) by (cases bo) auto
  define s where "s = \<lparr>input_values = iv, binary_outcome = bo, threshold_type = tt0,
        forced_choice = fc0, criterion_values = None, class_thr = None, tpr = None,
        fpr = None, n_true = None, n_false = None, auc = None, false_positive = None,
        false_negative = None, misclass = None, true_positive = None,
        true_negative = None, sensitivity = None, specificity = None, ppv = None,
        accuracy = None, n_obs = None, accuracy_p = None, accuracy_se = None\<rparr>"
  have init: "Roc_init iv bo tt0 fc0 = Inr s"
    using assms(1,4) any by (simp add: Roc_init_def s_def)
  have f: "input_values s = iv" "binary_outcome s = bo" "forced_choice s = fc0"
    by (simp_all add: s_def)
  have ne: "iv \<noteq> []" using assms(1,2) by auto
  have step: "calculate ex None None cvo tt fc bal s = Inl ZeroDivisionError"
    if c: "create_criterion_values cvo s = Inr (s\<lparr>criterion_values := Some (x # cv)\<rparr>)"
    for cvo x cv
  proof -
    let ?s1 = "s\<lparr>criterion_values := Some (x # cv)\<rparr>"
    have "\<exists>s2. forced_choice_transform fc ?s1 = Inr s2 \<and> criterion_values s2 = Some (x # cv) \<and>
        binary_outcome s2 = bo \<and> length (input_values s2) = length bo"
    proof (cases "fc \<or> fc0")
      case False
      then have "forced_choice_transform fc ?s1 = Inr ?s1"
        using f(3) by (intro forced_choice_transform_off) simp_all
      then show ?thesis using f assms(1) by simp
    next
      case True
      with assms(5) have one: "length bo = 1" by simp
      then obtain b where b: "bo = [b]" by (cases bo) auto
      with assms(3) have bo: "bo = [True]" by simp
      from one assms(1) obtain v where iv: "iv = [v]" by (cases iv) auto
      have "forced_choice_transform fc ?s1 =
          Inr (?s1\<lparr>forced_choice := True, input_values := [0], class_thr := Some 0\<rparr>)"
        using True f bo iv by (intro forced_choice_transform_single [of _ _ v]) simp_all
      then show ?thesis using bo f(2) by simp
    qed
    then obtain s2 where s2: "forced_choice_transform fc ?s1 = Inr s2"
      "criterion_values s2 = Some (x # cv)" "binary_outcome s2 = bo"
      "length (input_values s2) = length bo" by blast
    have "rates s2 = Inl ZeroDivisionError"
      using s2(2-4) assms(2,3) by (intro rates_all_true [of _ x cv]) simp_all
    then show ?thesis
      using c s2(1) by (simp add: calculate_def)
  qed
  obtain x cv where l: "linspace (Min (set iv)) (Max (set iv)) (50 * length bo) = x # cv"
    using linspace_default_Cons [OF assms(2)] by blast
  have "create_criterion_values None s = Inr (s\<lparr>criterion_values := Some (x # cv)\<rparr>)"
    using ne f(1,2) l by (simp add: create_criterion_values_None)
  then have d: "calculate ex None None None tt fc bal s = Inl ZeroDivisionError"
    by (rule step)
  have "calculate ex None None (Some (x # cv)) tt fc bal s = Inl ZeroDivisionError" for x cv
    by (rule step) (simp add: create_criterion_values_Some)
  with init d show ?thesis by blast
qed

theorem all_true_zero_division_witness:
  "(\<exists>s. Roc_init [1, 2] [True, True] (Interned ''optimal_overall'') False = Inr s \<and>
     calculate ext0 None None None (Interned ''optimal_overall'') False False s =
       Inl ZeroDivisionError) \<and>
   (\<exists>s. Roc_init [5] [True] (Interned ''optimal_overall'') True = Inr s \<and>
     calculate ext0 None None None (Interned ''optimal_overall'') False False s =
       Inl ZeroDivisionError)"
proof -
  have h: "length [1, 2 :: real] = length [True, True]" "[True, True] \<noteq> []"
    "\<forall>b\<in>set [True, True]. b" "chars (Interned ''optimal_overall'') \<in> set thr_type"
    "\<not> (False \<or> False) \<or> length [True, True] = 1"
    by (simp_all add: thr_type_def)
  have k: "length [5 :: real] = length [True]" "[True] \<noteq> []"
    "\<forall>b\<in>set [True]. b" "chars (Interned ''optimal_overall'') \<in> set thr_type"
    "\<not> (False \<or> True) \<or> length [True] = 1"
    by (simp_all add: thr_type_def)
  from all_true_zero_division [OF h, of ext0 "Interned ''optimal_overall''" False]
    all_true_zero_division [OF k, of ext0 "Interned ''optimal_overall''" False]
  show ?thesis by blast
qed

text \<open>
  C8, as stated, fails with forced choice on: for two observations with true outcomes
  the subtraction in line 453 combines an empty array with an array of two values, which
  raises ValueError before any rate is computed.
\<close>

theorem all_true_forced_choice_counterexample:
  "\<exists>s. Roc_init [1, 2] [True, True] (Interned ''optimal_overall'') True = Inr s \<and>
     calculate ext0 None None None (Interned ''optimal_overall'') False False s = Inl ValueError"
proof -
  obtain s where s: "Roc_init [1, 2] [True, True] (Interned ''optimal_overall'') True = Inr s"
    by (simp add: Roc_init_def thr_type_def)
  from Roc_init_eq_Inr [OF s]
  have f: "input_values s = [1, 2]" "binary_outcome s = [True, True]" "forced_choice s"
    by simp_all
  define s1 where "s1 = s\<lparr>criterion_values := Some (linspace (Min (set [1, 2]))
              (Max (set [1, 2])) (50 * length [True, True]))\<rparr>"
  have c1: "create_criterion_values None (set_inputs None None s) = Inr s1"
    using create_criterion_values_None [of s] f by (simp add: s1_def)
  have f1: "input_values s1 = [1, 2]" "binary_outcome s1 = [True, True]" "forced_choice s1"
    using f by (simp_all add: s1_def)
  have c2: "forced_choice_transform False s1 = Inl ValueError"
    using f1 by (simp add: forced_choice_transform_def Let_def mask_assign_def bcast2_def)
  have "calculate ext0 None None None (Interned ''optimal_overall'') False False s = Inl ValueError"
    unfolding calculate_def c1 bind_Inr c2 by simp
  with s show ?thesis by blast
qed

text \<open>
  C9: \<^verbatim>\<open>apply_mask\<close> returns a value only when the method is the string constant
  \<^verbatim>\<open>'dot_product'\<close> or \<^verbatim>\<open>'correlation'\<close>. For every other method string the call
  raises: the variable \<^verbatim>\<open>pexp\<close> is never bound, and when the arguments pass the type
  checks the exception is UnboundLocalError, with and without \<^verbatim>\<open>save_output\<close>.
\<close>

theorem apply_mask_other_method:
  "(\<forall>r. apply_mask env data weight_map mask_img method save_output output_dir = Inr r \<longrightarrow>
       method = Interned ''dot_product'' \<or> method = Interned ''correlation'') \<and>
   (chars method \<noteq> ''dot_product'' \<and> chars method \<noteq> ''correlation'' \<longrightarrow>
       (\<exists>e. apply_mask env data weight_map mask_img method save_output output_dir = Inl e)) \<and>
   (chars method \<noteq> ''dot_product'' \<and> chars method \<noteq> ''correlation'' \<and>
    mask_img \<noteq> Other \<and> (\<exists>d. data = Nifti d) \<and> (\<exists>w. weight_map = Nifti w) \<longrightarrow>
       apply_mask env data weight_map mask_img method save_output output_dir =
         Inl UnboundLocalError)"
proof (intro conjI allI impI)
  fix r
  assume "apply_mask env data weight_map mask_img method save_output output_dir = Inr r"
  from apply_mask_Inr_method [OF this]
  show "method = Interned ''dot_product'' \<or> method = Interned ''correlation''"
    by (simp add: is_literal_iff)
next
  assume c: "chars method \<noteq> ''dot_product'' \<and> chars method \<noteq> ''correlation''"
  show "\<exists>e. apply_mask env data weight_map mask_img method save_output output_dir = Inl e"
  proof (cases "apply_mask env data weight_map mask_img method save_output output_dir")
    case (Inl e)
    then show ?thesis by blast
  next
    case (Inr r)
    from apply_mask_Inr_method [OF Inr] c show ?thesis
      by (auto dest: is_literal_chars)
  qed
next
  assume c: "chars method \<noteq> ''dot_product'' \<and> chars method \<noteq> ''correlation'' \<and>
    mask_img \<noteq> Other \<and> (\<exists>d. data = Nifti d) \<and> (\<exists>w. weight_map = Nifti w)"
  then obtain d w where dw: "data = Nifti d" "weight_map = Nifti w" "mask_img \<noteq> Other" by blast
  from c have "\<not> is_literal method ''dot_product''" "\<not> is_literal method ''correlation''"
    by (auto dest: is_literal_chars)
  then show "apply_mask env data weight_map mask_img method save_output output_dir =
         Inl UnboundLocalError"
    unfolding apply_mask_masked [OF dw] by (cases save_output) simp_all
qed

theorem apply_mask_other_method_witness:
  "apply_mask env0 (Nifti 1) (Nifti 0) PyNone (Interned ''mean'') False ''.'' = Inl UnboundLocalError \<and>
   apply_mask env0 (Nifti 1) (Nifti 0) PyNone (Interned ''mean'') True ''.'' = Inl UnboundLocalError \<and>
   (\<exists>r. apply_mask env0 (Nifti 1) (Nifti 0) PyNone (Interned ''dot_product'') False ''.'' = Inr r)"
proof -
  have h: "chars (Interned ''mean'') \<noteq> ''dot_product'' \<and> chars (Interned ''mean'') \<noteq> ''correlation'' \<and>
    (PyNone :: nat py_obj) \<noteq> Other \<and> (\<exists>d. Nifti (1::nat) = Nifti d) \<and> (\<exists>w. Nifti (0::nat) = Nifti w)"
    by simp
  from apply_mask_other_method [of env0 "Nifti 1" "Nifti 0" PyNone "Interned ''mean''" False "''.''"] h
  have a: "apply_mask env0 (Nifti 1) (Nifti 0) PyNone (Interned ''mean'') False ''.'' = Inl UnboundLocalError"
    by blast
  from apply_mask_other_method [of env0 "Nifti 1" "Nifti 0" PyNone "Interned ''mean''" True "''.''"] h
  have b: "apply_mask env0 (Nifti 1) (Nifti 0) PyNone (Interned ''mean'') True ''.'' = Inl UnboundLocalError"
    by blast
  have c: "\<exists>r. apply_mask env0 (Nifti 1) (Nifti 0) PyNone (Interned ''dot_product'') False ''.'' = Inr r"
    by (simp add: apply_mask_def env0_def Let_def np_dot_T_def)
  from a b c show ?thesis by blast
qed

text \<open>
  C10, as amended: without forced choice a call of \<^verbatim>\<open>Roc.calculate\<close> that returns
  leaves in \<^verbatim>\<open>self.input_values\<close> and \<^verbatim>\<open>self.binary_outcome\<close> the arguments
  \<^verbatim>\<open>input_values\<close> and \<^verbatim>\<open>binary_outcome\<close> of the call, and the vectors stored
  before for the arguments that are \<^verbatim>\<open>None\<close> (lines 437-441). With forced choice and
  as many true as false outcomes the call with the default criterion values returns with
  \<^verbatim>\<open>self.input_values\<close> replaced by the transformed scores and \<^verbatim>\<open>self.forced_choice\<close>
  set, its criterion values spanning the values before the transformation; the call that
  \<^verbatim>\<open>Roc.plot\<close> makes then returns too, takes its criterion values from the
  transformed scores and transforms them once more. Whenever a call with forced choice
  returns, the stored values are those that lines 449-454 left. For the scores 3 and 1
  with the outcomes true and false the stored values differ from the supplied ones.
\<close>

theorem calculate_input_frame:
  assumes "Roc_init iv bo tt0 fc0 = Inr s"
  shows "(\<not> fc \<and> \<not> fc0 \<longrightarrow>
        (\<forall>s'. calculate ex ivo boo cvo tt fc bal s = Inr s' \<longrightarrow>
           input_values s' = or_stored ivo iv \<and> binary_outcome s' = or_stored boo bo)) \<and>
     ((fc \<or> fc0) \<and> length (or_stored ivo iv) = length (or_stored boo bo) \<and>
      True \<in> set (or_stored boo bo) \<and>
      count_true (invert (or_stored boo bo)) = count_true (or_stored boo bo) \<longrightarrow>
        (\<exists>s'. calculate ex ivo boo None tt fc bal s = Inr s' \<and>
           input_values s' = forced_scores (or_stored ivo iv) (or_stored boo bo) \<and>
           binary_outcome s' = or_stored boo bo \<and> forced_choice s' \<and>
           criterion_values s' =
             Some (linspace (Min (set (or_stored ivo iv))) (Max (set (or_stored ivo iv)))
                     (50 * length (or_stored boo bo))) \<and>
           (\<exists>s''. plot_calculate ex s' = Inr s'' \<and>
              input_values s'' = forced_scores (input_values s') (or_stored boo bo) \<and>
              binary_outcome s'' = or_stored boo bo \<and>
              criterion_values s'' =
                Some (linspace (Min (set (input_values s'))) (Max (set (input_values s')))
                        (50 * length (or_stored boo bo)))))) \<and>
     (fc \<or> fc0 \<longrightarrow>
        (\<forall>s'. calculate ex ivo boo cvo tt fc bal s = Inr s' \<longrightarrow>
           forced_choice s' \<and> binary_outcome s' = or_stored boo bo \<and>
           (\<exists>s1 s2. create_criterion_values cvo (set_inputs ivo boo s) = Inr s1 \<and>
              forced_choice_transform fc s1 = Inr s2 \<and>
              input_values s' = input_values s2))) \<and>
     forced_scores [3, 1] [True, False] \<noteq> [3, 1]"
proof (intro conjI impI allI)
  from Roc_init_eq_Inr [OF assms]
  have s: "input_values s = iv" "binary_outcome s = bo" "forced_choice s = fc0"
    by simp_all
  let ?t = "set_inputs ivo boo s"
  have t: "input_values ?t = or_stored ivo iv" "binary_outcome ?t = or_stored boo bo"
    "forced_choice ?t = fc0"
    using s by (simp_all add: set_inputs_fields)
  {
    fix s'
    assume n: "\<not> fc \<and> \<not> fc0" and c: "calculate ex ivo boo cvo tt fc bal s = Inr s'"
    from c have "calculate ex None None cvo tt fc bal ?t = Inr s'"
      by (simp only: calculate_set_inputs [of ex ivo boo])
    from inputs_after_calculate [OF this] n t
    show "input_values s' = or_stored ivo iv" "binary_outcome s' = or_stored boo bo"
      by simp_all
  }
  {
    assume f: "(fc \<or> fc0) \<and> length (or_stored ivo iv) = length (or_stored boo bo) \<and>
      True \<in> set (or_stored boo bo) \<and>
      count_true (invert (or_stored boo bo)) = count_true (or_stored boo bo)"
    then have f1: "fc \<or> fc0" and l: "length (or_stored ivo iv) = length (or_stored boo bo)"
      and tr: "True \<in> set (or_stored boo bo)"
      and p: "count_true (invert (or_stored boo bo)) = count_true (or_stored boo bo)"
      by simp_all
    from calculate_forced_twice [OF t l tr f1 p, of ex tt bal]
    obtain s' s'' where c: "calculate ex None None None tt fc bal ?t = Inr s'"
      "input_values s' = forced_scores (or_stored ivo iv) (or_stored boo bo)"
      "binary_outcome s' = or_stored boo bo" "forced_choice s'"
      "criterion_values s' =
         Some (linspace (Min (set (or_stored ivo iv))) (Max (set (or_stored ivo iv)))
                 (50 * length (or_stored boo bo)))"
      "plot_calculate ex s' = Inr s''"
      "input_values s'' =
         forced_scores (forced_scores (or_stored ivo iv) (or_stored boo bo)) (or_stored boo bo)"
      "criterion_values s'' =
         Some (linspace (Min (set (forced_scores (or_stored ivo iv) (or_stored boo bo))))
                 (Max (set (forced_scores (or_stored ivo iv) (or_stored boo bo))))
                 (50 * length (or_stored boo bo)))"
      by blast
    from c(1) have c1: "calculate ex ivo boo None tt fc bal s = Inr s'"
      by (simp only: calculate_set_inputs [of ex ivo boo])
    have b: "binary_outcome s'' = or_stored boo bo"
      using inputs_after_calculate [OF c(6) [unfolded plot_calculate_def]] c(3) by simp
    have i: "input_values s'' = forced_scores (input_values s') (or_stored boo bo)"
      using c(7) c(2) by simp
    have k: "criterion_values s'' =
         Some (linspace (Min (set (input_values s'))) (Max (set (input_values s')))
                 (50 * length (or_stored boo bo)))"
      using c(8) c(2) by simp
    from c1 c(2-6) i b k
    show "\<exists>s'. calculate ex ivo boo None tt fc bal s = Inr s' \<and>
           input_values s' = forced_scores (or_stored ivo iv) (or_stored boo bo) \<and>
           binary_outcome s' = or_stored boo bo \<and> forced_choice s' \<and>
           criterion_values s' =
             Some (linspace (Min (set (or_stored ivo iv))) (Max (set (or_stored ivo iv)))
                     (50 * length (or_stored boo bo))) \<and>
           (\<exists>s''. plot_calculate ex s' = Inr s'' \<and>
              input_values s'' = forced_scores (input_values s') (or_stored boo bo) \<and>
              binary_outcome s'' = or_stored boo bo \<and>
              criterion_values s'' =
                Some (linspace (Min (set (input_values s'))) (Max (set (input_values s')))
                        (50 * length (or_stored boo bo))))"
      by blast
  }
  {
    fix s'
    assume f: "fc \<or> fc0" and c: "calculate ex ivo boo cvo tt fc bal s = Inr s'"
    from c have c': "calculate ex None None cvo tt fc bal ?t = Inr s'"
      by (simp only: calculate_set_inputs [of ex ivo boo])
    from forced_after_calculate [OF c'] f t(3)
    show "forced_choice s'"
      "\<exists>s1 s2. create_criterion_values cvo (set_inputs ivo boo s) = Inr s1 \<and>
              forced_choice_transform fc s1 = Inr s2 \<and>
              input_values s' = input_values s2"
      by simp_all
    from inputs_after_calculate [OF c'] t(2)
    show "binary_outcome s' = or_stored boo bo" by simp
  }
  show "forced_scores [3, 1] [True, False] \<noteq> [3, 1]"
    by (simp add: forced_scores_def)
qed

theorem calculate_input_frame_witness:
  "\<exists>s. Roc_init [3, 1] [True, False] (Interned ''optimal_overall'') False = Inr s \<and>
     (\<exists>s'. calculate ext0 None None None (Interned ''optimal_overall'') False False s = Inr s' \<and>
        input_values s' = [3, 1] \<and> binary_outcome s' = [True, False]) \<and>
     (\<exists>s'. calculate ext0 (Some [1, 3]) (Some [False, True]) None
              (Interned ''optimal_overall'') False False s = Inr s' \<and>
        input_values s' = [1, 3] \<and> binary_outcome s' = [False, True]) \<and>
     (\<exists>s' s''. calculate ext0 None None None (Interned ''optimal_overall'') True False s = Inr s' \<and>
        input_values s' = [0, - 2] \<and> input_values s' \<noteq> [3, 1] \<and> forced_choice s' \<and>
        criterion_values s' = Some (linspace 1 3 100) \<and>
        plot_calculate ext0 s' = Inr s'' \<and> input_values s'' = [0, - 2] \<and>
        criterion_values s'' = Some (linspace (- 2) 0 100) \<and>
        criterion_values s'' \<noteq> criterion_values s')"
proof -
  obtain s where s: "Roc_init [3, 1] [True, False] (Interned ''optimal_overall'') False = Inr s"
    by (simp add: Roc_init_def thr_type_def)
  have v: "False \<in> set [True, False]" by simp
  from calculate_overall_total [OF s v, of ext0 False]
  obtain s1 where c1:
    "calculate ext0 None None None (Interned ''optimal_overall'') False False s = Inr s1"
    by blast
  with calculate_input_frame [OF s, of False ext0 None None None "Interned ''optimal_overall''" False]
  have r1: "input_values s1 = [3, 1] \<and> binary_outcome s1 = [True, False]" by simp
  have g: "length (or_stored (Some [1, 3 :: real]) [3, 1]) =
      length (or_stored (Some [False, True]) [True, False])"
    "True \<in> set (or_stored (Some [False, True]) [True, False])"
    "False \<in> set (or_stored (Some [False, True]) [True, False])" by simp_all
  from calculate_overall_total [OF Roc_init_set_inputs [OF s g(1,2)] g(3), of ext0 False]
  obtain s4 where c4:
    "calculate ext0 (Some [1, 3]) (Some [False, True]) None
       (Interned ''optimal_overall'') False False s = Inr s4"
    unfolding calculate_set_inputs [of ext0 "Some [1, 3]" "Some [False, True]"] by blast
  with calculate_input_frame [OF s, of False ext0 "Some [1, 3]" "Some [False, True]" None
      "Interned ''optimal_overall''" False]
  have r4: "input_values s4 = [1, 3] \<and> binary_outcome s4 = [False, True]" by simp
  have p: "(True \<or> False) \<and>
      length [3, 1 :: real] = length [True, False] \<and>
      True \<in> set [True, False] \<and>
      count_true (invert [True, False]) = count_true [True, False]"
    by simp
  note th = calculate_input_frame [OF s, of True ext0 None None None
      "Interned ''optimal_overall''" False, unfolded or_stored_simps]
  from th [THEN conjunct2, THEN conjunct1, THEN mp, OF p]
  obtain s2 s3 where c2:
    "calculate ext0 None None None (Interned ''optimal_overall'') True False s = Inr s2"
    "input_values s2 = forced_scores [3, 1] [True, False]" "forced_choice s2"
    "criterion_values s2 = Some (linspace (Min (set [3, 1])) (Max (set [3, 1])) (50 * length [True, False]))"
    "plot_calculate ext0 s2 = Inr s3"
    "input_values s3 = forced_scores (input_values s2) [True, False]"
    "criterion_values s3 = Some (linspace (Min (set (input_values s2))) (Max (set (input_values s2)))
        (50 * length [True, False]))"
    by blast
  have e: "forced_scores [3, 1] [True, False] = [0, - 2]"
    "forced_scores [0, - 2] [True, False] = [0, - 2]" by (simp_all add: forced_scores_def)
  from c2(2) e have r2: "input_values s2 = [0, - 2]" "input_values s2 \<noteq> [3, 1]" by simp_all
  from c2(6) r2(1) e have r3: "input_values s3 = [0, - 2]" by simp
  from c2(4) have k2: "criterion_values s2 = Some (linspace 1 3 100)" by simp
  from c2(7) r2(1) have k3: "criterion_values s3 = Some (linspace (- 2) 0 100)" by simp
  have "hd (linspace 1 3 100) \<noteq> hd (linspace (- 2) 0 100)"
    by (simp add: hd_linspace)
  then have "linspace 1 3 100 \<noteq> linspace (- 2) 0 100" by auto
  with k2 k3 have k: "criterion_values s3 \<noteq> criterion_values s2" by simp
  have x1: "\<exists>s'. calculate ext0 None None None (Interned ''optimal_overall'') False False s = Inr s' \<and>
        input_values s' = [3, 1] \<and> binary_outcome s' = [True, False]"
    using c1 r1 by blast
  have x2: "\<exists>s'. calculate ext0 (Some [1, 3]) (Some [False, True]) None
              (Interned ''optimal_overall'') False False s = Inr s' \<and>
        input_values s' = [1, 3] \<and> binary_outcome s' = [False, True]"
    using c4 r4 by blast
  have x3: "\<exists>s' s''. calculate ext0 None None None (Interned ''optimal_overall'') True False s = Inr s' \<and>
        input_values s' = [0, - 2] \<and> input_values s' \<noteq> [3, 1] \<and> forced_choice s' \<and>
        criterion_values s' = Some (linspace 1 3 100) \<and>
        plot_calculate ext0 s' = Inr s'' \<and> input_values s'' = [0, - 2] \<and>
        criterion_values s'' = Some (linspace (- 2) 0 100) \<and>
        criterion_values s'' \<noteq> criterion_values s'"
    using c2(1,3,5) r2 r3 k2 k3 k by blast
  from s x1 x2 x3 show ?thesis by blast
qed

text \<open>
  C10, as stated, fails without forced choice when the call passes the vectors: the call
  \<^verbatim>\<open>calculate(input_values=[1, 3], binary_outcome=[False, True])\<close> on an object
  constructed with the scores 3 and 1 and the outcomes true and false returns with the
  arguments stored in place of the vectors supplied at construction.
\<close>

theorem calculate_replaces_stored_counterexample:
  "\<exists>s s'. Roc_init [3, 1] [True, False] (Interned ''optimal_overall'') False = Inr s \<and>
     calculate ext0 (Some [1, 3]) (Some [False, True]) None
       (Interned ''optimal_overall'') False False s = Inr s' \<and>
     \<not> forced_choice s' \<and>
     input_values s = [3, 1] \<and> input_values s' = [1, 3] \<and>
     binary_outcome s = [True, False] \<and> binary_outcome s' = [False, True]"
proof -
  obtain s where s: "Roc_init [3, 1] [True, False] (Interned ''optimal_overall'') False = Inr s"
    by (simp add: Roc_init_def thr_type_def)
  from Roc_init_eq_Inr [OF s]
  have f: "input_values s = [3, 1]" "binary_outcome s = [True, False]" "forced_choice s = False"
    by simp_all
  let ?t = "set_inputs (Some [1, 3]) (Some [False, True]) s"
  have g: "length (or_stored (Some [1, 3 :: real]) [3, 1]) =
      length (or_stored (Some [False, True]) [True, False])"
    "True \<in> set (or_stored (Some [False, True]) [True, False])"
    "False \<in> set (or_stored (Some [False, True]) [True, False])" by simp_all
  from calculate_overall_total [OF Roc_init_set_inputs [OF s g(1,2)] g(3), of ext0 False]
  obtain s' where c: "calculate ext0 None None None (Interned ''optimal_overall'') False False ?t = Inr s'"
    by blast
  have t: "input_values ?t = [1, 3]" "binary_outcome ?t = [False, True]" "\<not> forced_choice ?t"
    using f by (simp_all add: set_inputs_fields)
  from inputs_after_calculate [OF c] t
  have r: "input_values s' = [1, 3]" "binary_outcome s' = [False, True]" by simp_all
  from forced_after_calculate [OF c] t(3) have n: "\<not> forced_choice s'" by simp
  from c have "calculate ext0 (Some [1, 3]) (Some [False, True]) None
       (Interned ''optimal_overall'') False False s = Inr s'"
    by (simp only: calculate_set_inputs [of ext0 "Some [1, 3]" "Some [False, True]"])
  with s f r n show ?thesis by blast
qed

end
